theory Spec2Isabelle
  imports Main "HOL-Library.Word"
begin

section \<open>Values, errors and strings of the database engine\<close>

text \<open>
  The sources use types of the database engine that they do not declare: \<open>Value\<close>,
  \<open>ErrorData\<close>, \<open>StringUtil\<close>, \<open>KeyValueSecret\<close>, \<open>SecretEntry\<close>, \<open>CreateSecretInput\<close>,
  the case-insensitive maps and \<open>FileOpenFlags\<close>. Each is modelled by what the sources do
  with it.

  The secret functions of the httpfs extension work on the engine's \<open>Value\<close>s. The
  model keeps the non-NULL values of the logical types that the named parameters of
  \<open>SetBaseNamedParams\<close> use (VARCHAR, BOOLEAN, MAP) and the STRUCT values that the
  functions build. A MAP value is the list of its entries, each entry the list of the
  children of the entry's struct (a key and a value in a well-formed MAP).
\<close>

datatype LogicalType = BOOLEAN | VARCHAR | MAP | STRUCT

datatype val =
    Value_BOOLEAN bool
  | Value_VARCHAR string
  | Value_MAP "val list list"
  | Value_STRUCT "(string \<times> val) list"

fun value_type :: "val \<Rightarrow> LogicalType" where
  "value_type (Value_BOOLEAN b) = BOOLEAN"
| "value_type (Value_VARCHAR s) = VARCHAR"
| "value_type (Value_MAP cs) = MAP"
| "value_type (Value_STRUCT fs) = STRUCT"

text \<open>
  The printers of nested values and of their types belong to the engine. They are taken
  as they come: \<open>value_text\<close> prints a MAP or STRUCT value, \<open>type_text\<close> prints its type.
\<close>

record Engine =
  value_text :: "val \<Rightarrow> string"
  type_text :: "val \<Rightarrow> string"

text \<open>\<open>Value::ToString\<close> (and \<open>GetValue<string>\<close>, which is the same function).\<close>

fun ToString :: "Engine \<Rightarrow> val \<Rightarrow> string" where
  "ToString eng (Value_VARCHAR s) = s"
| "ToString eng (Value_BOOLEAN b) = (if b then ''true'' else ''false'')"
| "ToString eng v = value_text eng v"

text \<open>\<open>named_param.second.type().ToString()\<close>.\<close>

fun TypeToString :: "Engine \<Rightarrow> val \<Rightarrow> string" where
  "TypeToString eng (Value_VARCHAR s) = ''VARCHAR''"
| "TypeToString eng (Value_BOOLEAN b) = ''BOOLEAN''"
| "TypeToString eng v = type_text eng v"

datatype ExceptionType = INVALID_INPUT | INTERNAL | NOT_IMPLEMENTED

datatype error = Exception ExceptionType string

abbreviation InvalidInputException :: "string \<Rightarrow> error" where
  "InvalidInputException msg \<equiv> Exception INVALID_INPUT msg"

abbreviation InternalException :: "string \<Rightarrow> error" where
  "InternalException msg \<equiv> Exception INTERNAL msg"

abbreviation NotImplementedException :: "string \<Rightarrow> error" where
  "NotImplementedException msg \<equiv> Exception NOT_IMPLEMENTED msg"

text \<open>
  \<open>ErrorData::Type\<close> and \<open>ErrorData::Message\<close> of a caught exception; the message is
  taken to be the text the exception was thrown with.
\<close>

fun ErrorType :: "error \<Rightarrow> ExceptionType" where
  "ErrorType (Exception t msg) = t"

fun Message :: "error \<Rightarrow> string" where
  "Message (Exception t msg) = msg"

text \<open>
  \<open>StringUtil::Lower\<close>: every byte through \<open>tolower\<close>, which moves the letters A..Z to
  a..z and leaves every other byte.
\<close>

definition tolower :: "char \<Rightarrow> char" where
  "tolower c =
     (case map_of (zip ''ABCDEFGHIJKLMNOPQRSTUVWXYZ'' ''abcdefghijklmnopqrstuvwxyz'') c of
        None \<Rightarrow> c
      | Some l \<Rightarrow> l)"

definition Lower :: "string \<Rightarrow> string" where
  "Lower s = map tolower s"

section \<open>Secrets and the input of secret creation\<close>

datatype OnCreateConflict =
  ERROR_ON_CONFLICT | IGNORE_ON_CONFLICT | REPLACE_ON_CONFLICT | ALTER_ON_CONFLICT

datatype SecretPersistType = DEFAULT | TEMPORARY | PERSISTENT

text \<open>
  The engine's case-insensitive maps (\<open>case_insensitive_map_t\<close> of the options,
  \<open>case_insensitive_tree_t\<close> of a secret's key-value map) compare keys without regard to
  case and keep every key in the spelling it was first stored with. The model is the list of
  the entries; the keys of a map are pairwise different after lower-casing (\<open>wf_options\<close>).
\<close>

type_synonym ci_map = "(string \<times> val) list"

text \<open>\<open>m.find(key)\<close>.\<close>

definition ci_find :: "ci_map \<Rightarrow> string \<Rightarrow> val option" where
  "ci_find m key = map_option snd (find (\<lambda>p. Lower (fst p) = Lower key) m)"

text \<open>
  \<open>m[key] = value\<close>: the value of an entry with that key (whatever its case) is replaced
  and the entry keeps its spelling of the key; otherwise a new entry is made under the key as
  it is given. The model puts the new entry last; where the map iterates it is the map's
  business, and no theorem below rests on the position.
\<close>

fun ci_set :: "ci_map \<Rightarrow> string \<Rightarrow> val \<Rightarrow> ci_map" where
  "ci_set [] key v = [(key, v)]"
| "ci_set (p # ps) key v =
     (if Lower (fst p) = Lower key then (fst p, v) # ps else p # ci_set ps key v)"

text \<open>
  A \<open>KeyValueSecret\<close>, its fields named by the accessors the code reads them with.
  \<open>secret_map\<close> is a case-insensitive map.
\<close>

record KeyValueSecret =
  GetScope :: "string list"
  GetType :: string
  GetProvider :: string
  GetName :: string
  secret_map :: ci_map
  redact_keys :: "string set"

definition make_KeyValueSecret :: "string list \<Rightarrow> string \<Rightarrow> string \<Rightarrow> string \<Rightarrow> KeyValueSecret" where
  "make_KeyValueSecret scope_p type_p provider_p name_p =
     \<lparr>GetScope = scope_p, GetType = type_p, GetProvider = provider_p, GetName = name_p,
      secret_map = [], redact_keys = {}\<rparr>"

definition TryGetValue :: "KeyValueSecret \<Rightarrow> string \<Rightarrow> val option" where
  "TryGetValue kv_secret key = ci_find (secret_map kv_secret) key"

text \<open>The assignment \<open>secret->secret_map[key] = v\<close>.\<close>

definition set_secret_map :: "KeyValueSecret \<Rightarrow> string \<Rightarrow> val \<Rightarrow> KeyValueSecret" where
  "set_secret_map kv_secret key v =
     kv_secret\<lparr>secret_map := ci_set (secret_map kv_secret) key v\<rparr>"

text \<open>
  The entry that the secret manager keeps for a secret: whether the secret is persistent,
  the storage backend it is kept in, and the secret.
\<close>

record SecretEntry =
  persist_type :: SecretPersistType
  storage_mode :: string
  secret :: KeyValueSecret

text \<open>
  The input of a secret-creation function. \<open>options\<close> is a case-insensitive hash map:
  the model lists its entries in the order in which the map iterates them, an order the hash
  table decides.
\<close>

type_synonym named_params = ci_map

record CreateSecretInput =
  type :: string
  provider :: string
  storage_type :: string
  name :: string
  scope :: "string list"
  options :: named_params
  on_conflict :: OnCreateConflict
  persist_type :: SecretPersistType

definition wf_options :: "named_params \<Rightarrow> bool" where
  "wf_options opts = distinct (map (\<lambda>p. Lower (fst p)) opts)"

section \<open>Creating an object-storage secret\<close>

fun MapToStruct_fields :: "Engine \<Rightarrow> val list list \<Rightarrow> error + (string \<times> val) list" where
  "MapToStruct_fields eng [] = Inr []"
| "MapToStruct_fields eng (kv_pair # children) =
     (if length kv_pair \<noteq> 2 then Inl (InvalidInputException ''Invalid input passed to refresh_info'')
      else (case MapToStruct_fields eng children of
              Inl e \<Rightarrow> Inl e
            | Inr struct_fields \<Rightarrow> Inr ((ToString eng (kv_pair ! 0), kv_pair ! 1) # struct_fields)))"

text \<open>
  \<open>MapToStruct\<close>. \<open>MapValue::GetChildren\<close> is the engine's; on a value that is not a MAP
  it has no children to return and the engine raises an internal error.
\<close>

fun MapToStruct :: "Engine \<Rightarrow> val \<Rightarrow> error + val" where
  "MapToStruct eng (Value_MAP children) =
     (case MapToStruct_fields eng children of
        Inl e \<Rightarrow> Inl e
      | Inr struct_fields \<Rightarrow> Inr (Value_STRUCT struct_fields))"
| "MapToStruct eng v = Inl (InternalException ''MapValue::GetChildren on a value that is not a MAP'')"

definition invalid_type_message :: "Engine \<Rightarrow> string \<Rightarrow> val \<Rightarrow> string" where
  "invalid_type_message eng lower_name v =
     ''Invalid type past to secret option: '' @ [CHR 0x27] @ lower_name @ [CHR 0x27] @
     '', found '' @ [CHR 0x27] @ TypeToString eng v @ [CHR 0x27] @
     '', expected: '' @ [CHR 0x27] @ ''BOOLEAN'' @ [CHR 0x27]"

definition refresh_conflict_message :: string where
  "refresh_conflict_message = ''Can not set `refresh` and `refresh_info` at the same time''"

definition unknown_parameter_message :: "string \<Rightarrow> string" where
  "unknown_parameter_message lower_name =
     ''Unknown named parameter passed to CreateSecretFunctionInternal: '' @ lower_name"

text \<open>The option of a BOOLEAN parameter (\<open>use_ssl\<close>, \<open>url_compatibility_mode\<close>, \<open>requester_pays\<close>).\<close>

fun set_boolean_option ::
  "Engine \<Rightarrow> KeyValueSecret \<Rightarrow> string \<Rightarrow> val \<Rightarrow> error + KeyValueSecret" where
  "set_boolean_option eng kv_secret lower_name (Value_BOOLEAN b) =
     Inr (set_secret_map kv_secret lower_name (Value_BOOLEAN b))"
| "set_boolean_option eng kv_secret lower_name v =
     Inl (InvalidInputException (invalid_type_message eng lower_name v))"

text \<open>
  The body of the loop over \<open>input.options\<close>: the state is the secret under construction
  and the local flag \<open>refresh\<close>; a \<open>throw\<close> is the result \<open>Inl\<close>.
\<close>

definition apply_named_param ::
  "Engine \<Rightarrow> named_params \<Rightarrow> KeyValueSecret \<times> bool \<Rightarrow> string \<times> val \<Rightarrow> error + KeyValueSecret \<times> bool" where
  "apply_named_param eng input_options st named_param =
    (let kv_secret = fst st; refresh = snd st;
         lower_name = Lower (fst named_param); v = snd named_param in
     if lower_name = ''key_id'' then Inr (set_secret_map kv_secret ''key_id'' v, refresh)
     else if lower_name = ''secret'' then Inr (set_secret_map kv_secret ''secret'' v, refresh)
     else if lower_name = ''region'' then
       Inr (set_secret_map kv_secret ''region'' (Value_VARCHAR (ToString eng v)), refresh)
     else if lower_name = ''session_token'' then
       Inr (set_secret_map kv_secret ''session_token'' (Value_VARCHAR (ToString eng v)), refresh)
     else if lower_name = ''endpoint'' then
       Inr (set_secret_map kv_secret ''endpoint'' (Value_VARCHAR (ToString eng v)), refresh)
     else if lower_name = ''url_style'' then
       Inr (set_secret_map kv_secret ''url_style'' (Value_VARCHAR (ToString eng v)), refresh)
     else if lower_name = ''use_ssl'' then
       (case set_boolean_option eng kv_secret ''use_ssl'' v of
          Inl e \<Rightarrow> Inl e
        | Inr s \<Rightarrow> Inr (s, refresh))
     else if lower_name = ''kms_key_id'' then
       Inr (set_secret_map kv_secret ''kms_key_id'' (Value_VARCHAR (ToString eng v)), refresh)
     else if lower_name = ''url_compatibility_mode'' then
       (case set_boolean_option eng kv_secret ''url_compatibility_mode'' v of
          Inl e \<Rightarrow> Inl e
        | Inr s \<Rightarrow> Inr (s, refresh))
     else if lower_name = ''account_id'' then Inr (kv_secret, refresh)
     else if lower_name = ''refresh'' then
       (if refresh then Inl (InvalidInputException refresh_conflict_message)
        else Inr (set_secret_map
                    (set_secret_map kv_secret ''refresh'' (Value_VARCHAR ''auto''))
                    ''refresh_info''
                    (Value_STRUCT (map (\<lambda>p. (Lower (fst p), snd p)) input_options)),
                  ToString eng v = ''auto''))
     else if lower_name = ''refresh_info'' then
       (if refresh then Inl (InvalidInputException refresh_conflict_message)
        else (case MapToStruct eng v of
                Inl e \<Rightarrow> Inl e
              | Inr struct \<Rightarrow> Inr (set_secret_map kv_secret ''refresh_info'' struct, True)))
     else if lower_name = ''requester_pays'' then
       (case set_boolean_option eng kv_secret ''requester_pays'' v of
          Inl e \<Rightarrow> Inl e
        | Inr s \<Rightarrow> Inr (s, refresh))
     else Inl (InvalidInputException (unknown_parameter_message lower_name)))"

fun apply_named_params ::
  "Engine \<Rightarrow> named_params \<Rightarrow> KeyValueSecret \<times> bool \<Rightarrow> named_params \<Rightarrow> error + KeyValueSecret \<times> bool" where
  "apply_named_params eng input_options st [] = Inr st"
| "apply_named_params eng input_options st (named_param # rest) =
     (case apply_named_param eng input_options st named_param of
        Inl e \<Rightarrow> Inl e
      | Inr st' \<Rightarrow> apply_named_params eng input_options st' rest)"

text \<open>The scope of the new secret: the user's, or the default of the secret type.\<close>

definition resolve_scope :: "CreateSecretInput \<Rightarrow> error + string list" where
  "resolve_scope input =
     (if scope input = [] then
        (if type input = ''s3'' then Inr [''s3://'', ''s3n://'', ''s3a://'']
         else if type input = ''r2'' then Inr [''r2://'']
         else if type input = ''gcs'' then Inr [''gcs://'', ''gs://'']
         else if type input = ''aws'' then Inr ['''']
         else Inl (InternalException
                (''Unknown secret type found in httpfs extension: '' @
                 [CHR 0x27] @ type input @ [CHR 0x27])))
      else Inr (scope input))"

text \<open>The secret before the loop: constructed, redact keys set, the r2 endpoint derived.\<close>

definition initial_secret :: "Engine \<Rightarrow> CreateSecretInput \<Rightarrow> string list \<Rightarrow> KeyValueSecret" where
  "initial_secret eng input scope_p =
     (let kv_secret = make_KeyValueSecret scope_p (type input) (provider input) (name input);
          kv_secret = kv_secret\<lparr>redact_keys := {''secret'', ''session_token''}\<rparr>
      in if type input = ''r2'' then
           (case ci_find (options input) ''account_id'' of
              None \<Rightarrow> kv_secret
            | Some account_id \<Rightarrow>
                set_secret_map
                  (set_secret_map kv_secret ''endpoint''
                     (Value_VARCHAR (ToString eng account_id @ ''.r2.cloudflarestorage.com'')))
                  ''url_style'' (Value_VARCHAR ''path''))
         else kv_secret)"

definition CreateSecretFunctionInternal :: "Engine \<Rightarrow> CreateSecretInput \<Rightarrow> error + KeyValueSecret" where
  "CreateSecretFunctionInternal eng input =
     (case resolve_scope input of
        Inl e \<Rightarrow> Inl e
      | Inr scope_p \<Rightarrow>
          (case apply_named_params eng (options input)
                  (initial_secret eng input scope_p, False) (options input) of
             Inl e \<Rightarrow> Inl e
           | Inr st \<Rightarrow> Inr (fst st)))"

section \<open>Refreshing a secret\<close>

text \<open>
  \<open>GenerateRefreshSecretInfo\<close>. The recipe is read through the engine's \<open>StructType\<close>
  and \<open>StructValue\<close> accessors, which give child names and children of a STRUCT only:
  on any other value the engine raises an internal error. Each field is written with
  \<open>result.options[key] = value\<close>, starting from the empty map.
\<close>

fun GenerateRefreshSecretInfo :: "SecretEntry \<Rightarrow> val \<Rightarrow> error + CreateSecretInput" where
  "GenerateRefreshSecretInfo secret_entry (Value_STRUCT refresh_info_children) =
     (let kv_secret = secret secret_entry in
      Inr \<lparr>type = GetType kv_secret,
           provider = GetProvider kv_secret,
           storage_type = storage_mode secret_entry,
           name = GetName kv_secret,
           scope = GetScope kv_secret,
           options = fold (\<lambda>child opts. ci_set opts (fst child) (snd child))
                       refresh_info_children [],
           on_conflict = REPLACE_ON_CONFLICT,
           persist_type = TEMPORARY\<rparr>)"
| "GenerateRefreshSecretInfo secret_entry v =
     Inl (InternalException ''StructType::GetChildCount on a value that is not a STRUCT'')"

definition refresh_failure_message :: "string \<Rightarrow> string \<Rightarrow> string" where
  "refresh_failure_message secret_name error_message =
     ''Exception thrown while trying to refresh secret '' @ secret_name @
     ''. To fix this, please recreate or remove the secret and try again. Error: '' @
     [CHR 0x27] @ error_message @ [CHR 0x27]"

text \<open>
  What one run of \<open>TryRefreshS3Secret\<close> does: the inputs it passed to the secret
  manager's \<open>CreateSecret\<close>, in order, and how it ended (\<open>Inr\<close> the returned boolean,
  \<open>Inl\<close> the exception thrown).
\<close>

record RefreshRun =
  create_secret_calls :: "CreateSecretInput list"
  outcome :: "error + bool"

text \<open>
  \<open>TryRefreshS3Secret\<close>. The secret manager is the engine's: its \<open>CreateSecret\<close> is a
  parameter, \<open>Inl\<close> when it throws. The recipe is generated before the \<open>try\<close> block, so
  a failure there is not wrapped. The secrets of the model are all \<open>KeyValueSecret\<close>s, so
  the casts succeed; the log line of the success path changes nothing and is left out.
\<close>

definition TryRefreshS3Secret ::
  "(CreateSecretInput \<Rightarrow> error + SecretEntry) \<Rightarrow> SecretEntry \<Rightarrow> RefreshRun" where
  "TryRefreshS3Secret CreateSecret secret_to_refresh =
     (let kv_secret = secret secret_to_refresh in
      case TryGetValue kv_secret ''refresh_info'' of
        None \<Rightarrow> \<lparr>create_secret_calls = [], outcome = Inr False\<rparr>
      | Some refresh_info \<Rightarrow>
          (case GenerateRefreshSecretInfo secret_to_refresh refresh_info of
             Inl e \<Rightarrow> \<lparr>create_secret_calls = [], outcome = Inl e\<rparr>
           | Inr refresh_input \<Rightarrow>
               (case CreateSecret refresh_input of
                  Inr res \<Rightarrow> \<lparr>create_secret_calls = [refresh_input], outcome = Inr True\<rparr>
                | Inl ex \<Rightarrow>
                    \<lparr>create_secret_calls = [refresh_input],
                     outcome = Inl (Exception (ErrorType ex)
                       (refresh_failure_message (GetName kv_secret) (Message ex)))\<rparr>)))"

text \<open>
  A secret manager to run the refresh against in the examples: it calls the creation
  function registered for the \<open>config\<close> provider (\<open>CreateS3SecretFromConfig\<close>, which is
  \<open>CreateSecretFunctionInternal\<close>) and files the new secret under the storage and persist
  type of the input.
\<close>

definition CreateS3SecretFromConfig :: "Engine \<Rightarrow> CreateSecretInput \<Rightarrow> error + KeyValueSecret" where
  "CreateS3SecretFromConfig eng input = CreateSecretFunctionInternal eng input"

definition config_manager :: "Engine \<Rightarrow> CreateSecretInput \<Rightarrow> error + SecretEntry" where
  "config_manager eng input =
     (case CreateS3SecretFromConfig eng input of
        Inl e \<Rightarrow> Inl e
      | Inr s \<Rightarrow>
          Inr \<lparr>SecretEntry.persist_type = persist_type input, storage_mode = storage_type input,
               secret = s\<rparr>)"

section \<open>The S3 file handle and its write buffers\<close>

type_synonym idx_t = "64 word"

record S3AuthParams =
  region :: string
  access_key_id :: string
  secret_access_key :: string
  session_token :: string
  endpoint :: string
  kms_key_id :: string
  url_style :: string
  use_ssl :: bool
  s3_url_compatibility_mode :: bool
  requester_pays :: bool

record S3ConfigParams =
  max_file_size :: "64 word"
  max_parts_per_file :: "64 word"
  max_upload_threads :: "64 word"

text \<open>
  The buffer of one part of a multipart upload; \<open>'b\<close> is the engine's \<open>BufferHandle\<close>.
  \<open>idx_t\<close> and \<open>size_t\<close> are unsigned 64-bit integers: sums wrap around, and the
  division by a \<open>buffer_size\<close> of 0 has no result.
\<close>

record 'b S3WriteBuffer =
  part_no :: idx_t
  idx :: idx_t
  buffer_start :: idx_t
  buffer_end :: idx_t
  buffer :: 'b
  uploading :: bool

definition S3WriteBuffer_new :: "idx_t \<Rightarrow> 64 word \<Rightarrow> 'b \<Rightarrow> 'b S3WriteBuffer option" where
  "S3WriteBuffer_new buffer_start_p buffer_size buffer_p =
     (if buffer_size = 0 then None
      else Some \<lparr>part_no = buffer_start_p div buffer_size,
                 idx = 0,
                 buffer_start = buffer_start_p,
                 buffer_end = buffer_start_p + buffer_size,
                 buffer = buffer_p,
                 uploading = False\<rparr>)"

text \<open>
  Modelled from the spec: the request that uploads a part is built by
  \<open>S3FileSystem::UploadBuffer\<close>, which the header declares and whose body is not among
  the source files. The spec: "the provider-facing part number is this value plus one
  (provider part numbering is 1-based)"; the header's comment on \<open>part_no\<close> says the same.
\<close>

definition provider_part_number :: "'b S3WriteBuffer \<Rightarrow> idx_t" where
  "provider_part_number write_buffer = part_no write_buffer + 1"

text \<open>
  \<open>FileOpenFlags\<close> is the engine's set of open flags; the constructor of the handle asks
  it three questions, which are the fields here. The constructor of the base class
  \<open>HTTPFileHandle\<close> is not among the source files and is taken to store its arguments
  without throwing; the model is the member initialisers and the body of the constructor
  of \<open>S3FileHandle\<close>.
\<close>

record FileOpenFlags =
  OpenForReading :: bool
  OpenForWriting :: bool
  OpenForAppending :: bool

record S3FileHandle =
  flags :: FileOpenFlags
  auth_params :: S3AuthParams
  config_params :: S3ConfigParams
  uploads_in_progress :: "16 word"
  parts_uploaded :: "16 word"
  upload_finalized :: bool
  uploader_has_error :: bool
  upload_exception :: "error option"

definition S3FileHandle_new ::
  "FileOpenFlags \<Rightarrow> S3AuthParams \<Rightarrow> S3ConfigParams \<Rightarrow> error + S3FileHandle" where
  "S3FileHandle_new flags_p auth_params_p config_params_p =
     (if OpenForReading flags_p \<and> OpenForWriting flags_p then
        Inl (NotImplementedException ''Cannot open an HTTP file for both reading and writing'')
      else if OpenForAppending flags_p then
        Inl (NotImplementedException ''Cannot open an HTTP file for appending'')
      else Inr \<lparr>flags = flags_p, auth_params = auth_params_p, config_params = config_params_p,
                uploads_in_progress = 0, parts_uploaded = 0, upload_finalized = False,
                uploader_has_error = False, upload_exception = None\<rparr>)"

section \<open>What the loop over the options leaves alone\<close>

text \<open>Two secrets with the same scope, type, provider, name and redact keys.\<close>

definition same_header :: "KeyValueSecret \<Rightarrow> KeyValueSecret \<Rightarrow> bool" where
  "same_header s s' \<longleftrightarrow>
     GetScope s' = GetScope s \<and> GetType s' = GetType s \<and> GetProvider s' = GetProvider s \<and>
     GetName s' = GetName s \<and> redact_keys s' = redact_keys s"

section \<open>Open modes and example inputs\<close>

text \<open>The two open modes of the spec: opened for reading only, opened for writing only.\<close>

definition read_only :: "FileOpenFlags \<Rightarrow> bool" where
  "read_only f \<longleftrightarrow> OpenForReading f \<and> \<not> OpenForWriting f"

definition write_only :: "FileOpenFlags \<Rightarrow> bool" where
  "write_only f \<longleftrightarrow> OpenForWriting f \<and> \<not> OpenForReading f"

text \<open>The member initialisers of \<open>S3AuthParams\<close> and the defaults of \<open>S3ConfigParams\<close>.\<close>

definition default_auth_params :: S3AuthParams where
  "default_auth_params =
     \<lparr>region = [], access_key_id = [], secret_access_key = [], session_token = [],
      endpoint = [], kms_key_id = [], url_style = [], use_ssl = True,
      s3_url_compatibility_mode = False, requester_pays = False\<rparr>"

definition default_config_params :: S3ConfigParams where
  "default_config_params =
     \<lparr>max_file_size = 800000000000, max_parts_per_file = 10000, max_upload_threads = 50\<rparr>"

definition no_access_flags :: FileOpenFlags where
  "no_access_flags = \<lparr>OpenForReading = False, OpenForWriting = False, OpenForAppending = False\<rparr>"

definition write_flags :: FileOpenFlags where
  "write_flags = \<lparr>OpenForReading = False, OpenForWriting = True, OpenForAppending = False\<rparr>"

definition read_write_flags :: FileOpenFlags where
  "read_write_flags = \<lparr>OpenForReading = True, OpenForWriting = True, OpenForAppending = False\<rparr>"

text \<open>An engine whose printers of nested values print nothing.\<close>

definition no_engine :: Engine where
  "no_engine = \<lparr>value_text = (\<lambda>v. []), type_text = (\<lambda>v. [])\<rparr>"

text \<open>
  The secret of the test \<open>secret_aws_requester_pays.test\<close>:
  \<open>CREATE SECRET s1 (TYPE S3, KEY_ID 'k', SECRET 's', REQUESTER_PAYS true)\<close>.
\<close>

definition s1_input :: CreateSecretInput where
  "s1_input =
     \<lparr>type = ''s3'', provider = ''config'', storage_type = ''memory'', name = ''s1'', scope = [],
      options = [(''KEY_ID'', Value_VARCHAR ''k''), (''SECRET'', Value_VARCHAR ''s''),
                 (''REQUESTER_PAYS'', Value_BOOLEAN True)],
      on_conflict = ERROR_ON_CONFLICT, persist_type = DEFAULT\<rparr>"

definition s1_secret :: KeyValueSecret where
  "s1_secret =
     \<lparr>GetScope = [''s3://'', ''s3n://'', ''s3a://''], GetType = ''s3'', GetProvider = ''config'',
      GetName = ''s1'',
      secret_map = [(''key_id'', Value_VARCHAR ''k''), (''secret'', Value_VARCHAR ''s''),
                    (''requester_pays'', Value_BOOLEAN True)],
      redact_keys = {''secret'', ''session_token''}\<rparr>"

text \<open>An r2 secret with a scope of the user's and an account id.\<close>

definition scoped_input :: CreateSecretInput where
  "scoped_input =
     \<lparr>type = ''r2'', provider = ''config'', storage_type = ''memory'', name = ''s2'',
      scope = [''s3://my-bucket''], options = [(''account_id'', Value_VARCHAR ''acc'')],
      on_conflict = ERROR_ON_CONFLICT, persist_type = DEFAULT\<rparr>"

definition scoped_secret :: KeyValueSecret where
  "scoped_secret =
     \<lparr>GetScope = [''s3://my-bucket''], GetType = ''r2'', GetProvider = ''config'', GetName = ''s2'',
      secret_map = [(''endpoint'', Value_VARCHAR ''acc.r2.cloudflarestorage.com''),
                    (''url_style'', Value_VARCHAR ''path'')],
      redact_keys = {''secret'', ''session_token''}\<rparr>"

section \<open>Vocabulary of the claims\<close>

text \<open>The option names that the loop of \<open>CreateSecretFunctionInternal\<close> has a branch for.\<close>

definition recognized_keys :: "string set" where
  "recognized_keys =
     {''key_id'', ''secret'', ''region'', ''session_token'', ''endpoint'', ''url_style'',
      ''use_ssl'', ''kms_key_id'', ''url_compatibility_mode'', ''account_id'', ''refresh'',
      ''refresh_info'', ''requester_pays''}"

text \<open>
  The keys of the map of a secret, in the spelling they are stored with, are recognized
  option names or belong to \<open>A\<close>.
\<close>

definition keys_within :: "string set \<Rightarrow> KeyValueSecret \<Rightarrow> bool" where
  "keys_within A s \<longleftrightarrow> fst ` set (secret_map s) \<subseteq> A \<union> recognized_keys"

text \<open>The options with every key lower-cased, in the same order.\<close>

definition lower_keys :: "named_params \<Rightarrow> named_params" where
  "lower_keys opts = map (\<lambda>p. (Lower (fst p), snd p)) opts"

text \<open>
  The secret records an automatic refresh of the given options: \<open>refresh\<close> is
  \<open>auto\<close> and \<open>refresh_info\<close> is the struct of all the options under lower-cased keys.
\<close>

definition refresh_recorded :: "named_params \<Rightarrow> KeyValueSecret \<Rightarrow> bool" where
  "refresh_recorded input_options s \<longleftrightarrow>
     TryGetValue s ''refresh'' = Some (Value_VARCHAR ''auto'') \<and>
     TryGetValue s ''refresh_info'' = Some (Value_STRUCT (lower_keys input_options))"

section \<open>More example inputs\<close>

text \<open>An unknown option after a known one.\<close>

definition unknown_key_input :: CreateSecretInput where
  "unknown_key_input =
     \<lparr>type = ''s3'', provider = ''config'', storage_type = ''memory'', name = ''s3'', scope = [],
      options = [(''KEY_ID'', Value_VARCHAR ''k''), (''Foo'', Value_VARCHAR ''x'')],
      on_conflict = ERROR_ON_CONFLICT, persist_type = DEFAULT\<rparr>"

text \<open>An unknown option after a \<open>use_ssl\<close> that is not a BOOLEAN.\<close>

definition bad_type_then_unknown_input :: CreateSecretInput where
  "bad_type_then_unknown_input =
     \<lparr>type = ''s3'', provider = ''config'', storage_type = ''memory'', name = ''s4'', scope = [],
      options = [(''use_ssl'', Value_VARCHAR ''yes''), (''foo'', Value_VARCHAR ''x'')],
      on_conflict = ERROR_ON_CONFLICT, persist_type = DEFAULT\<rparr>"

text \<open>
  A persistent secret with \<open>REFRESH 'auto'\<close>, the entry that the secret manager keeps for
  it, and the input that a refresh of the entry passes to the secret manager.
\<close>

definition auto_refresh_input :: CreateSecretInput where
  "auto_refresh_input =
     \<lparr>type = ''s3'', provider = ''config'', storage_type = ''local_file'', name = ''s5'',
      scope = [],
      options = [(''KEY_ID'', Value_VARCHAR ''k''), (''REFRESH'', Value_VARCHAR ''auto'')],
      on_conflict = ERROR_ON_CONFLICT, persist_type = PERSISTENT\<rparr>"

definition auto_refresh_secret :: KeyValueSecret where
  "auto_refresh_secret =
     \<lparr>GetScope = [''s3://'', ''s3n://'', ''s3a://''], GetType = ''s3'', GetProvider = ''config'',
      GetName = ''s5'',
      secret_map = [(''key_id'', Value_VARCHAR ''k''), (''refresh'', Value_VARCHAR ''auto''),
        (''refresh_info'',
          Value_STRUCT [(''key_id'', Value_VARCHAR ''k''), (''refresh'', Value_VARCHAR ''auto'')])],
      redact_keys = {''secret'', ''session_token''}\<rparr>"

definition persistent_entry :: SecretEntry where
  "persistent_entry =
     \<lparr>SecretEntry.persist_type = PERSISTENT, storage_mode = ''local_file'',
      secret = auto_refresh_secret\<rparr>"

definition recipe_input :: CreateSecretInput where
  "recipe_input =
     \<lparr>type = ''s3'', provider = ''config'', storage_type = ''local_file'', name = ''s5'',
      scope = [''s3://'', ''s3n://'', ''s3a://''],
      options = [(''key_id'', Value_VARCHAR ''k''), (''refresh'', Value_VARCHAR ''auto'')],
      on_conflict = REPLACE_ON_CONFLICT, persist_type = TEMPORARY\<rparr>"

text \<open>
  \<open>REFRESH 'disabled'\<close> together with a \<open>REFRESH_INFO\<close> map, iterated in this order, and
  the secret that comes out.
\<close>

definition disabled_refresh_input :: CreateSecretInput where
  "disabled_refresh_input =
     \<lparr>type = ''s3'', provider = ''config'', storage_type = ''memory'', name = ''s6'', scope = [],
      options = [(''refresh'', Value_VARCHAR ''disabled''),
                 (''refresh_info'', Value_MAP [[Value_VARCHAR ''key_id'', Value_VARCHAR ''k2'']])],
      on_conflict = ERROR_ON_CONFLICT, persist_type = DEFAULT\<rparr>"

definition disabled_refresh_secret :: KeyValueSecret where
  "disabled_refresh_secret =
     \<lparr>GetScope = [''s3://'', ''s3n://'', ''s3a://''], GetType = ''s3'', GetProvider = ''config'',
      GetName = ''s6'',
      secret_map = [(''refresh'', Value_VARCHAR ''auto''),
        (''refresh_info'', Value_STRUCT [(''key_id'', Value_VARCHAR ''k2'')])],
      redact_keys = {''secret'', ''session_token''}\<rparr>"

text \<open>An input of the given type with no scope and no options.\<close>

definition bare_input :: "string \<Rightarrow> CreateSecretInput" where
  "bare_input type_p =
     \<lparr>type = type_p, provider = ''config'', storage_type = ''memory'', name = ''bare'', scope = [],
      options = [], on_conflict = ERROR_ON_CONFLICT, persist_type = DEFAULT\<rparr>"

text \<open>\<open>REFRESH 'disabled'\<close> without a \<open>REFRESH_INFO\<close>, and the secret that comes out.\<close>

definition disabled_only_input :: CreateSecretInput where
  "disabled_only_input =
     \<lparr>type = ''s3'', provider = ''config'', storage_type = ''memory'', name = ''s7'', scope = [],
      options = [(''KEY_ID'', Value_VARCHAR ''k''), (''refresh'', Value_VARCHAR ''disabled'')],
      on_conflict = ERROR_ON_CONFLICT, persist_type = DEFAULT\<rparr>"

definition disabled_only_secret :: KeyValueSecret where
  "disabled_only_secret =
     \<lparr>GetScope = [''s3://'', ''s3n://'', ''s3a://''], GetType = ''s3'', GetProvider = ''config'',
      GetName = ''s7'',
      secret_map = [(''key_id'', Value_VARCHAR ''k''), (''refresh'', Value_VARCHAR ''auto''),
        (''refresh_info'',
          Value_STRUCT [(''key_id'', Value_VARCHAR ''k''),
                        (''refresh'', Value_VARCHAR ''disabled'')])],
      redact_keys = {''secret'', ''session_token''}\<rparr>"

section \<open>Lemmas on strings and on the loop\<close>

subsection \<open>Lower-casing\<close>

lemma Lower_literals [simp]:
  "Lower ''key_id'' = ''key_id''"
  "Lower ''secret'' = ''secret''"
  "Lower ''region'' = ''region''"
  "Lower ''session_token'' = ''session_token''"
  "Lower ''endpoint'' = ''endpoint''"
  "Lower ''url_style'' = ''url_style''"
  "Lower ''use_ssl'' = ''use_ssl''"
  "Lower ''kms_key_id'' = ''kms_key_id''"
  "Lower ''url_compatibility_mode'' = ''url_compatibility_mode''"
  "Lower ''account_id'' = ''account_id''"
  "Lower ''refresh'' = ''refresh''"
  "Lower ''refresh_info'' = ''refresh_info''"
  "Lower ''requester_pays'' = ''requester_pays''"
  by (simp_all add: Lower_def tolower_def)

lemma tolower_idem: "tolower (tolower c) = tolower c"
  by (simp add: tolower_def)

lemma Lower_idem [simp]: "Lower (Lower s) = Lower s"
  by (simp add: Lower_def tolower_idem)

subsection \<open>The loop writes the map of the secret only\<close>

lemma same_header_refl [simp]: "same_header s s"
  by (simp add: same_header_def)

lemma same_header_trans: "same_header a b \<Longrightarrow> same_header b c \<Longrightarrow> same_header a c"
  by (simp add: same_header_def)

lemma same_header_set_secret_map [simp]: "same_header s (set_secret_map s' k v) = same_header s s'"
  by (simp add: same_header_def set_secret_map_def)

lemma secret_map_set_secret_map [simp]:
  "secret_map (set_secret_map s k v) = ci_set (secret_map s) k v"
  by (simp add: set_secret_map_def)

lemma ci_find_simps [simp]:
  "ci_find [] key = None"
  "ci_find (p # ps) key = (if Lower (fst p) = Lower key then Some (snd p) else ci_find ps key)"
  by (simp_all add: ci_find_def)

lemma ci_find_ci_set:
  "ci_find (ci_set m k v) k' = (if Lower k' = Lower k then Some v else ci_find m k')"
  by (induction m) auto

lemma keys_ci_set: "fst ` set (ci_set m k v) \<subseteq> insert k (fst ` set m)"
  by (induction m) auto

lemma ci_set_keeps:
  "(k, v) \<in> set m \<Longrightarrow> Lower k' \<noteq> Lower k \<Longrightarrow> (k, v) \<in> set (ci_set m k' v')"
  by (induction m) auto

lemma ci_set_stores:
  "\<forall>k'\<in>fst ` set m. Lower k' = k' \<Longrightarrow> Lower k = k \<Longrightarrow> (k, v) \<in> set (ci_set m k v)"
  by (induction m) auto

lemma TryGetValue_set_secret_map [simp]:
  "TryGetValue (set_secret_map s k v) k' =
     (if Lower k' = Lower k then Some v else TryGetValue s k')"
  by (simp add: TryGetValue_def ci_find_ci_set)

lemma set_boolean_option_header:
  "set_boolean_option eng s k v = Inr s' \<Longrightarrow> same_header s s'"
  by (cases v) auto

lemma apply_named_param_header:
  assumes "apply_named_param eng all st p = Inr st'"
  shows "same_header (fst st) (fst st')"
  using assms unfolding apply_named_param_def Let_def
  by (auto split: if_splits sum.splits dest: set_boolean_option_header)

lemma apply_named_params_header:
  "apply_named_params eng all st rest = Inr st' \<Longrightarrow> same_header (fst st) (fst st')"
proof (induction rest arbitrary: st)
  case Nil
  then show ?case by simp
next
  case (Cons p rest)
  then show ?case
    by (auto split: sum.splits dest!: apply_named_param_header intro: same_header_trans)
qed

lemma same_header_initial_secret:
  "same_header (initial_secret eng input scope_p)
     \<lparr>GetScope = scope_p, GetType = type input, GetProvider = provider input, GetName = name input,
      secret_map = [], redact_keys = {''secret'', ''session_token''}\<rparr>"
  by (simp add: initial_secret_def make_KeyValueSecret_def Let_def same_header_def set_secret_map_def
      split: option.splits)

lemma CreateSecretFunctionInternal_Inr:
  assumes "CreateSecretFunctionInternal eng input = Inr s"
  obtains scope_p st' where "resolve_scope input = Inr scope_p"
    and "apply_named_params eng (options input) (initial_secret eng input scope_p, False) (options input) = Inr st'"
    and "s = fst st'"
  using assms unfolding CreateSecretFunctionInternal_def
  by (auto split: sum.splits)

lemma CreateSecretFunctionInternal_header:
  assumes "CreateSecretFunctionInternal eng input = Inr s"
  shows "resolve_scope input = Inr (GetScope s) \<and> GetType s = type input \<and>
         GetProvider s = provider input \<and> GetName s = name input \<and>
         redact_keys s = {''secret'', ''session_token''}"
proof -
  from assms obtain scope_p st' where r: "resolve_scope input = Inr scope_p"
    and l: "apply_named_params eng (options input) (initial_secret eng input scope_p, False) (options input) = Inr st'"
    and s: "s = fst st'"
    by (rule CreateSecretFunctionInternal_Inr)
  from apply_named_params_header [OF l] have "same_header (initial_secret eng input scope_p) s"
    by (simp add: s)
  with same_header_initial_secret [of eng input scope_p] r show ?thesis
    by (simp add: same_header_def)
qed

subsection \<open>The example secrets are what the function creates\<close>

lemma Lower_upper_literals [simp]:
  "Lower ''KEY_ID'' = ''key_id''"
  "Lower ''SECRET'' = ''secret''"
  "Lower ''REQUESTER_PAYS'' = ''requester_pays''"
  by (simp_all add: Lower_def tolower_def)

lemma s1_created: "CreateSecretFunctionInternal eng s1_input = Inr s1_secret"
  by (simp add: CreateSecretFunctionInternal_def resolve_scope_def initial_secret_def
      make_KeyValueSecret_def apply_named_param_def set_secret_map_def s1_input_def
      s1_secret_def Let_def)

lemma scoped_created: "CreateSecretFunctionInternal eng scoped_input = Inr scoped_secret"
  by (simp add: CreateSecretFunctionInternal_def resolve_scope_def initial_secret_def
      ci_find_def make_KeyValueSecret_def apply_named_param_def set_secret_map_def
      scoped_input_def scoped_secret_def Let_def)

subsection \<open>Unknown options and the errors of the loop\<close>

lemma apply_named_param_unknown:
  "Lower (fst p) \<notin> recognized_keys \<Longrightarrow>
   apply_named_param eng all st p = Inl (InvalidInputException (unknown_parameter_message (Lower (fst p))))"
  by (simp add: apply_named_param_def Let_def recognized_keys_def)

lemma apply_named_param_Inr_recognized:
  "apply_named_param eng all st p = Inr st' \<Longrightarrow> Lower (fst p) \<in> recognized_keys"
  using apply_named_param_unknown [of p eng all st] by auto

lemma apply_named_params_Inr_recognized:
  "apply_named_params eng all st rest = Inr st' \<Longrightarrow> \<forall>p\<in>set rest. Lower (fst p) \<in> recognized_keys"
proof (induction rest arbitrary: st)
  case Nil
  then show ?case by simp
next
  case (Cons p rest)
  then show ?case
    by (auto split: sum.splits dest: apply_named_param_Inr_recognized)
qed

lemma apply_named_params_append:
  "apply_named_params eng all st (xs @ ys) =
     (case apply_named_params eng all st xs of
        Inl e \<Rightarrow> Inl e
      | Inr st' \<Rightarrow> apply_named_params eng all st' ys)"
  by (induction xs arbitrary: st) (auto split: sum.splits)

lemma MapToStruct_fields_error:
  "MapToStruct_fields eng cs = Inl e \<Longrightarrow> ErrorType e = INVALID_INPUT"
  by (induction cs arbitrary: e) (auto split: if_splits sum.splits)

lemma set_boolean_option_error:
  "set_boolean_option eng s k v = Inl e \<Longrightarrow> ErrorType e = INVALID_INPUT"
  by (cases v) auto

lemma apply_named_param_error:
  assumes "apply_named_param eng all st p = Inl e"
    and "Lower (fst p) = ''refresh_info'' \<longrightarrow> value_type (snd p) = MAP"
  shows "ErrorType e = INVALID_INPUT"
  using assms unfolding apply_named_param_def Let_def
  by (cases "snd p")
     (auto split: if_splits sum.splits dest: set_boolean_option_error MapToStruct_fields_error)

lemma apply_named_params_error:
  assumes "apply_named_params eng all st rest = Inl e"
    and "\<forall>p\<in>set rest. Lower (fst p) = ''refresh_info'' \<longrightarrow> value_type (snd p) = MAP"
  shows "ErrorType e = INVALID_INPUT"
  using assms
proof (induction rest arbitrary: st)
  case Nil
  then show ?case by simp
next
  case (Cons p rest)
  then show ?case
    by (auto split: sum.splits dest: apply_named_param_error)
qed

subsection \<open>The loop sees the keys lower-cased\<close>

lemma apply_named_param_lower:
  assumes "lower_keys all' = lower_keys all" and "Lower (fst p') = Lower (fst p)" and "snd p' = snd p"
  shows "apply_named_param eng all' st p' = apply_named_param eng all st p"
  using assms by (simp add: apply_named_param_def Let_def lower_keys_def)

lemma apply_named_params_lower:
  assumes "lower_keys all' = lower_keys all" and "lower_keys rest' = lower_keys rest"
  shows "apply_named_params eng all' st rest' = apply_named_params eng all st rest"
  using assms(2)
proof (induction rest arbitrary: rest' st)
  case Nil
  then show ?case by (simp add: lower_keys_def)
next
  case (Cons p rest)
  then obtain p' rest'' where r: "rest' = p' # rest''" and p: "Lower (fst p') = Lower (fst p)" "snd p' = snd p"
    and rr: "lower_keys rest'' = lower_keys rest"
    by (cases rest') (auto simp add: lower_keys_def)
  from apply_named_param_lower [OF assms(1) p] Cons.IH [OF rr] show ?case
    by (simp add: r split: sum.splits)
qed

lemma ci_find_lower:
  "lower_keys opts' = lower_keys opts \<Longrightarrow> ci_find opts' key = ci_find opts key"
proof (induction opts arbitrary: opts')
  case Nil
  then show ?case by (simp add: lower_keys_def ci_find_def)
next
  case (Cons p opts)
  then obtain p' opts'' where r: "opts' = p' # opts''" and p: "Lower (fst p') = Lower (fst p)" "snd p' = snd p"
    and rr: "lower_keys opts'' = lower_keys opts"
    by (cases opts') (auto simp add: lower_keys_def)
  from Cons.IH [OF rr] p show ?case
    by (simp add: r ci_find_def)
qed

lemma CreateSecretFunctionInternal_lower:
  assumes "lower_keys opts' = lower_keys (options input)"
  shows "CreateSecretFunctionInternal eng (input\<lparr>options := opts'\<rparr>) = CreateSecretFunctionInternal eng input"
proof -
  have "resolve_scope (input\<lparr>options := opts'\<rparr>) = resolve_scope input"
    by (simp add: resolve_scope_def)
  moreover have "initial_secret eng (input\<lparr>options := opts'\<rparr>) sc = initial_secret eng input sc" for sc
    by (simp add: initial_secret_def Let_def ci_find_lower [OF assms])
  ultimately show ?thesis
    by (simp add: CreateSecretFunctionInternal_def apply_named_params_lower [OF assms assms]
        split: sum.splits)
qed

subsection \<open>Which errors are unknown-parameter errors\<close>

lemma unknown_parameter_message_inject [simp]:
  "unknown_parameter_message a = unknown_parameter_message b \<longleftrightarrow> a = b"
  by (simp add: unknown_parameter_message_def)

lemma invalid_type_message_neq [simp]:
  "invalid_type_message eng k v \<noteq> unknown_parameter_message k'"
  by (simp add: invalid_type_message_def unknown_parameter_message_def)

lemma refresh_conflict_message_neq [simp]:
  "refresh_conflict_message \<noteq> unknown_parameter_message k'"
  by (simp add: refresh_conflict_message_def unknown_parameter_message_def)

lemma set_boolean_option_not_unknown:
  "set_boolean_option eng s k v \<noteq> Inl (InvalidInputException (unknown_parameter_message k'))"
  by (cases v) auto

lemma MapToStruct_fields_not_unknown:
  "MapToStruct_fields eng cs \<noteq> Inl (InvalidInputException (unknown_parameter_message k'))"
  by (induction cs) (auto simp add: unknown_parameter_message_def split: sum.splits)

lemma MapToStruct_not_unknown:
  "MapToStruct eng v \<noteq> Inl (InvalidInputException (unknown_parameter_message k'))"
  using MapToStruct_fields_not_unknown [of eng _ k']
  by (cases v) (auto split: sum.splits)

lemma apply_named_param_unknown_message:
  assumes "apply_named_param eng all st p = Inl (InvalidInputException (unknown_parameter_message k'))"
  shows "k' = Lower (fst p) \<and> k' \<notin> recognized_keys"
proof (cases "Lower (fst p) \<in> recognized_keys")
  case False
  with assms apply_named_param_unknown [OF False, of eng all st] show ?thesis by simp
next
  case True
  with assms have False
    unfolding apply_named_param_def Let_def recognized_keys_def
    using set_boolean_option_not_unknown [of eng "fst st" _ "snd p" k']
      MapToStruct_not_unknown [of eng "snd p" k']
    by (auto split: if_splits sum.splits)
  then show ?thesis ..
qed

lemma apply_named_params_unknown_message:
  "apply_named_params eng all st rest = Inl (InvalidInputException (unknown_parameter_message k')) \<Longrightarrow>
   \<exists>p\<in>set rest. k' = Lower (fst p) \<and> k' \<notin> recognized_keys"
proof (induction rest arbitrary: st)
  case Nil
  then show ?case by simp
next
  case (Cons p rest)
  then show ?case
    by (auto split: sum.splits dest: apply_named_param_unknown_message)
qed

subsection \<open>The keys of the map of a created secret\<close>

lemma set_boolean_option_map:
  "set_boolean_option eng s k v = Inr s' \<Longrightarrow> secret_map s' = ci_set (secret_map s) k v"
  by (cases v) auto

lemma set_boolean_option_TryGetValue:
  "set_boolean_option eng s k v = Inr s' \<Longrightarrow>
   TryGetValue s' k' = (if Lower k' = Lower k then Some v else TryGetValue s k')"
  by (cases v) auto

lemma recognized_literals [simp]:
  "''key_id'' \<in> recognized_keys" "''secret'' \<in> recognized_keys"
  "''region'' \<in> recognized_keys" "''session_token'' \<in> recognized_keys"
  "''endpoint'' \<in> recognized_keys" "''url_style'' \<in> recognized_keys"
  "''use_ssl'' \<in> recognized_keys" "''kms_key_id'' \<in> recognized_keys"
  "''url_compatibility_mode'' \<in> recognized_keys" "''account_id'' \<in> recognized_keys"
  "''refresh'' \<in> recognized_keys" "''refresh_info'' \<in> recognized_keys"
  "''requester_pays'' \<in> recognized_keys"
  by (simp_all add: recognized_keys_def)

lemma keys_within_set_secret_map:
  "keys_within A s \<Longrightarrow> k \<in> recognized_keys \<Longrightarrow> keys_within A (set_secret_map s k v)"
proof -
  assume w: "keys_within A s" and k: "k \<in> recognized_keys"
  have "fst ` set (ci_set (secret_map s) k v) \<subseteq> insert k (fst ` set (secret_map s))"
    by (rule keys_ci_set)
  also from w k have "\<dots> \<subseteq> A \<union> recognized_keys"
    by (simp add: keys_within_def)
  finally show ?thesis by (simp add: keys_within_def)
qed

lemma keys_within_set_boolean_option:
  "set_boolean_option eng s k v = Inr s' \<Longrightarrow> keys_within A s \<Longrightarrow> k \<in> recognized_keys \<Longrightarrow>
   keys_within A s'"
  by (cases v) (auto intro: keys_within_set_secret_map)

lemma apply_named_param_keys:
  assumes "apply_named_param eng all st p = Inr st'" and "keys_within A (fst st)"
  shows "keys_within A (fst st')"
  using assms unfolding apply_named_param_def Let_def
  by (auto split: if_splits sum.splits
      intro!: keys_within_set_secret_map intro: keys_within_set_boolean_option)

lemma apply_named_params_keys:
  "apply_named_params eng all st rest = Inr st' \<Longrightarrow> keys_within A (fst st) \<Longrightarrow>
   keys_within A (fst st')"
proof (induction rest arbitrary: st)
  case Nil
  then show ?case by simp
next
  case (Cons p rest)
  from Cons.prems(1) obtain st1 where s1: "apply_named_param eng all st p = Inr st1"
    and r: "apply_named_params eng all st1 rest = Inr st'"
    by (auto split: sum.splits)
  from Cons.IH [OF r apply_named_param_keys [OF s1 Cons.prems(2)]] show ?case .
qed

lemma initial_secret_keys: "keys_within {} (initial_secret eng input sc)"
proof -
  have "keys_within {} (make_KeyValueSecret sc t pr n\<lparr>redact_keys := r\<rparr>)" for t pr n r
    by (simp add: keys_within_def make_KeyValueSecret_def)
  then show ?thesis
    by (auto simp add: initial_secret_def Let_def split: option.splits
        intro!: keys_within_set_secret_map)
qed

lemma recognized_keys_lower: "k \<in> recognized_keys \<Longrightarrow> Lower k = k"
  by (auto simp add: recognized_keys_def)

lemma resolve_scope_Inr:
  "type input \<in> {''s3'', ''r2'', ''gcs'', ''aws''} \<or> scope input \<noteq> [] \<Longrightarrow>
   \<exists>sc. resolve_scope input = Inr sc"
  by (auto simp add: resolve_scope_def)

subsection \<open>More examples\<close>

lemma Lower_more [simp]: "Lower ''Foo'' = ''foo''" "Lower ''REFRESH'' = ''refresh''" "Lower ''foo'' = ''foo''"
  by (simp_all add: Lower_def tolower_def)

lemmas create_defs = CreateSecretFunctionInternal_def resolve_scope_def initial_secret_def
      ci_find_def make_KeyValueSecret_def apply_named_param_def set_secret_map_def Let_def

lemma auto_refresh_created: "CreateSecretFunctionInternal eng auto_refresh_input = Inr auto_refresh_secret"
  by (simp add: create_defs auto_refresh_input_def auto_refresh_secret_def)

lemma recipe_created: "CreateSecretFunctionInternal eng recipe_input = Inr auto_refresh_secret"
  by (simp add: create_defs recipe_input_def auto_refresh_secret_def)

lemma disabled_refresh_created:
  "CreateSecretFunctionInternal eng disabled_refresh_input = Inr disabled_refresh_secret"
  by (simp add: create_defs disabled_refresh_input_def disabled_refresh_secret_def)

lemma persistent_entry_run:
  "TryRefreshS3Secret (config_manager eng) persistent_entry = \<lparr>create_secret_calls = [recipe_input], outcome = Inr True\<rparr>"
proof -
  have g: "GenerateRefreshSecretInfo persistent_entry
     (Value_STRUCT [(''key_id'', Value_VARCHAR ''k''), (''refresh'', Value_VARCHAR ''auto'')]) = Inr recipe_input"
    by (simp add: persistent_entry_def auto_refresh_secret_def recipe_input_def)
  have t: "TryGetValue (secret persistent_entry) ''refresh_info'' =
     Some (Value_STRUCT [(''key_id'', Value_VARCHAR ''k''), (''refresh'', Value_VARCHAR ''auto'')])"
    by (simp add: TryGetValue_def persistent_entry_def auto_refresh_secret_def)
  show ?thesis
    by (simp add: TryRefreshS3Secret_def Let_def t g config_manager_def CreateS3SecretFromConfig_def
        recipe_created del: GenerateRefreshSecretInfo.simps)
qed

subsection \<open>Replaying a recipe\<close>

lemma ci_set_fresh:
  "Lower key \<notin> (\<lambda>p. Lower (fst p)) ` set opts \<Longrightarrow> ci_set opts key v = opts @ [(key, v)]"
  by (induction opts) auto

lemma fold_ci_set_wf:
  "wf_options (acc @ children) \<Longrightarrow>
   fold (\<lambda>child opts. ci_set opts (fst child) (snd child)) children acc = acc @ children"
proof (induction children arbitrary: acc)
  case Nil
  then show ?case by simp
next
  case (Cons c children)
  from Cons.prems have "Lower (fst c) \<notin> (\<lambda>p. Lower (fst p)) ` set acc"
    by (auto simp add: wf_options_def)
  then have s: "ci_set acc (fst c) (snd c) = acc @ [c]"
    by (simp add: ci_set_fresh)
  from Cons.prems have "wf_options ((acc @ [c]) @ children)" by simp
  from Cons.IH [OF this] s show ?case by simp
qed

lemma TryRefreshS3Secret_calls:
  assumes "TryGetValue (secret secret_to_refresh) ''refresh_info'' = Some refresh_info"
    and "GenerateRefreshSecretInfo secret_to_refresh refresh_info = Inr refresh_input"
  shows "create_secret_calls (TryRefreshS3Secret CreateSecret secret_to_refresh) = [refresh_input]"
  using assms by (simp add: TryRefreshS3Secret_def Let_def split: sum.splits)

subsection \<open>Recording an automatic refresh\<close>

lemma apply_named_param_refresh_recorded:
  assumes "apply_named_param eng all st p = Inr st'"
    and "Lower (fst p) \<noteq> ''refresh_info''"
    and "Lower (fst p) = ''refresh'' \<or> refresh_recorded all (fst st)"
  shows "refresh_recorded all (fst st')"
  using assms unfolding apply_named_param_def Let_def refresh_recorded_def lower_keys_def
  by (auto split: if_splits sum.splits simp add: set_boolean_option_TryGetValue)

lemma apply_named_params_refresh_recorded:
  assumes "apply_named_params eng all st rest = Inr st'"
    and "\<forall>p\<in>set rest. Lower (fst p) \<noteq> ''refresh_info''"
    and "(\<exists>p\<in>set rest. Lower (fst p) = ''refresh'') \<or> refresh_recorded all (fst st)"
  shows "refresh_recorded all (fst st')"
  using assms
proof (induction rest arbitrary: st)
  case Nil
  then show ?case by simp
next
  case (Cons p rest)
  from Cons.prems(1) obtain st1 where s1: "apply_named_param eng all st p = Inr st1"
    and r: "apply_named_params eng all st1 rest = Inr st'"
    by (auto split: sum.splits)
  from Cons.prems(2) have n: "Lower (fst p) \<noteq> ''refresh_info''"
    and nr: "\<forall>p\<in>set rest. Lower (fst p) \<noteq> ''refresh_info''" by simp_all
  show ?case
  proof (cases "\<exists>p\<in>set rest. Lower (fst p) = ''refresh''")
    case True
    with Cons.IH [OF r nr] show ?thesis by blast
  next
    case False
    with Cons.prems(3) have "Lower (fst p) = ''refresh'' \<or> refresh_recorded all (fst st)" by auto
    from apply_named_param_refresh_recorded [OF s1 n this] Cons.IH [OF r nr] show ?thesis by blast
  qed
qed

text \<open>The flag after a \<open>refresh\<close> option with a string value: set by the value \<open>auto\<close> only.\<close>

lemma refresh_flag:
  "Lower k = ''refresh'' \<Longrightarrow>
   \<exists>kv'. apply_named_param eng all (kv_secret, False) (k, Value_VARCHAR x) = Inr (kv', x = ''auto'')"
  by (simp add: apply_named_param_def Let_def)

text \<open>Without a \<open>refresh_info\<close> option, a \<open>refresh\<close> option of any value is recorded.\<close>

lemma refresh_recorded_without_refresh_info:
  assumes "CreateSecretFunctionInternal eng input = Inr s"
    and "p \<in> set (options input)" and "Lower (fst p) = ''refresh''"
    and "\<forall>q\<in>set (options input). Lower (fst q) \<noteq> ''refresh_info''"
  shows "TryGetValue s ''refresh'' = Some (Value_VARCHAR ''auto'') \<and>
         TryGetValue s ''refresh_info'' = Some (Value_STRUCT (lower_keys (options input)))"
proof -
  from assms(1) obtain scope_p st' where
    l: "apply_named_params eng (options input) (initial_secret eng input scope_p, False) (options input) = Inr st'"
    and s: "s = fst st'"
    by (rule CreateSecretFunctionInternal_Inr)
  from assms(2,3) have "(\<exists>p\<in>set (options input). Lower (fst p) = ''refresh'') \<or>
    refresh_recorded (options input) (fst (initial_secret eng input scope_p, False))" by blast
  from apply_named_params_refresh_recorded [OF l assms(4) this]
  show ?thesis by (simp add: s refresh_recorded_def)
qed

lemma disabled_only_created:
  "CreateSecretFunctionInternal eng disabled_only_input = Inr disabled_only_secret"
  by (simp add: create_defs disabled_only_input_def disabled_only_secret_def)

subsection \<open>Values stored under the lower-cased key; the first error\<close>

lemma keys_within_lower:
  "keys_within {} s \<Longrightarrow> \<forall>k\<in>fst ` set (secret_map s). Lower k = k"
  using recognized_keys_lower by (auto simp add: keys_within_def)

lemma apply_named_param_stores:
  assumes "apply_named_param eng all st q = Inr st'"
    and "Lower (fst q) = K" and "K \<in> {''key_id'', ''secret''}"
    and "keys_within {} (fst st)"
  shows "(K, snd q) \<in> set (secret_map (fst st'))"
proof -
  from assms(3) have l: "Lower K = K" by auto
  from assms(1,2,3) have "secret_map (fst st') = ci_set (secret_map (fst st)) K (snd q)"
    unfolding apply_named_param_def Let_def by auto
  with ci_set_stores [OF keys_within_lower [OF assms(4)] l] show ?thesis by simp
qed

lemma apply_named_param_keeps:
  assumes "apply_named_param eng all st q = Inr st'"
    and "Lower (fst q) \<noteq> K" and "Lower K = K"
    and "K \<noteq> ''refresh''" and "K \<noteq> ''refresh_info''"
    and "(K, v) \<in> set (secret_map (fst st))"
  shows "(K, v) \<in> set (secret_map (fst st'))"
proof -
  have k: "(K, v) \<in> set (ci_set (secret_map (fst st)) k' v')" if "Lower k' \<noteq> K" for k' v'
    using that assms(3) by (simp add: ci_set_keeps assms(6))
  have k2: "(K, v) \<in> set (ci_set (ci_set (secret_map (fst st)) k' v') k'' v'')"
    if "Lower k' \<noteq> K" "Lower k'' \<noteq> K" for k' v' k'' v''
    using that assms(3) by (simp add: ci_set_keeps assms(6))
  from assms(1,2,4,5,6) show ?thesis
    unfolding apply_named_param_def Let_def
    by (auto split: if_splits sum.splits dest!: set_boolean_option_map simp add: k k2)
qed

lemma apply_named_params_stores:
  assumes "apply_named_params eng all st rest = Inr st'"
    and "distinct (map (\<lambda>p. Lower (fst p)) rest)"
    and "keys_within {} (fst st)"
    and "K \<in> {''key_id'', ''secret''}"
    and "(\<exists>p\<in>set rest. Lower (fst p) = K \<and> snd p = v) \<or>
         ((K, v) \<in> set (secret_map (fst st)) \<and> (\<forall>q\<in>set rest. Lower (fst q) \<noteq> K))"
  shows "(K, v) \<in> set (secret_map (fst st'))"
  using assms(1,2,3,5)
proof (induction rest arbitrary: st)
  case Nil
  then show ?case by simp
next
  case (Cons q rest)
  from Cons.prems(1) obtain st1 where s1: "apply_named_param eng all st q = Inr st1"
    and r: "apply_named_params eng all st1 rest = Inr st'"
    by (auto split: sum.splits)
  from Cons.prems(2) have d: "distinct (map (\<lambda>p. Lower (fst p)) rest)"
    and ni: "Lower (fst q) \<notin> (\<lambda>p. Lower (fst p)) ` set rest" by simp_all
  from ni have nq: "\<forall>q'\<in>set rest. Lower (fst q') \<noteq> Lower (fst q)" by (metis imageI)
  have w1: "keys_within {} (fst st1)"
    by (rule apply_named_param_keys [OF s1 Cons.prems(3)])
  show ?case
  proof (cases "Lower (fst q) = K")
    case True
    with nq have n: "\<forall>q'\<in>set rest. Lower (fst q') \<noteq> K" by simp
    with Cons.prems(4) True have "snd q = v" by auto
    with apply_named_param_stores [OF s1 True assms(4) Cons.prems(3)]
    have "(K, v) \<in> set (secret_map (fst st1))" by simp
    with n Cons.IH [OF r d w1] show ?thesis by blast
  next
    case False
    show ?thesis
    proof (cases "\<exists>p\<in>set rest. Lower (fst p) = K \<and> snd p = v")
      case True
      with Cons.IH [OF r d w1] show ?thesis by blast
    next
      case no: False
      with Cons.prems(4) False have h: "(K, v) \<in> set (secret_map (fst st))"
        and n: "\<forall>q\<in>set rest. Lower (fst q) \<noteq> K" by auto
      from assms(4) have lk: "Lower K = K" "K \<noteq> ''refresh''" "K \<noteq> ''refresh_info''"
        by auto
      from apply_named_param_keeps [OF s1 False lk h] n Cons.IH [OF r d w1]
      show ?thesis by blast
    qed
  qed
qed

lemma CreateSecretFunctionInternal_stores:
  assumes "CreateSecretFunctionInternal eng input = Inr s" and "wf_options (options input)"
    and "p \<in> set (options input)" and "Lower (fst p) \<in> {''key_id'', ''secret''}"
  shows "(Lower (fst p), snd p) \<in> set (secret_map s)"
proof -
  from assms(1) obtain scope_p st' where
    l: "apply_named_params eng (options input) (initial_secret eng input scope_p, False) (options input) = Inr st'"
    and s: "s = fst st'"
    by (rule CreateSecretFunctionInternal_Inr)
  from assms(2) have d: "distinct (map (\<lambda>p. Lower (fst p)) (options input))"
    by (simp add: wf_options_def)
  have w: "keys_within {} (fst (initial_secret eng input scope_p, False))"
    by (simp add: initial_secret_keys)
  from assms(3) have "\<exists>q\<in>set (options input). Lower (fst q) = Lower (fst p) \<and> snd q = snd p"
    by blast
  then have "(\<exists>q\<in>set (options input). Lower (fst q) = Lower (fst p) \<and> snd q = snd p) \<or>
     ((Lower (fst p), snd p) \<in> set (secret_map (fst (initial_secret eng input scope_p, False))) \<and>
      (\<forall>q\<in>set (options input). Lower (fst q) \<noteq> Lower (fst p)))" ..
  from apply_named_params_stores [OF l d w assms(4) this] show ?thesis by (simp add: s)
qed

lemma apply_named_param_first_error:
  assumes "options input = before @ q # after" and "resolve_scope input = Inr sc"
    and "apply_named_params eng (options input) (initial_secret eng input sc, False) before = Inr st"
    and "apply_named_param eng (options input) st q = Inl e"
  shows "CreateSecretFunctionInternal eng input = Inl e"
proof -
  have "apply_named_params eng (options input) (initial_secret eng input sc, False) (before @ q # after) = Inl e"
    by (simp add: apply_named_params_append assms(3,4))
  then show ?thesis
    by (simp only: assms(1) [symmetric] CreateSecretFunctionInternal_def assms(2) sum.case)
qed

lemma apply_named_param_error_kind:
  assumes "apply_named_param eng all st p = Inl e"
  shows "ErrorType e = INVALID_INPUT \<or>
         e = InternalException ''MapValue::GetChildren on a value that is not a MAP''"
  using assms unfolding apply_named_param_def Let_def
  by (cases "snd p")
     (auto split: if_splits sum.splits dest: set_boolean_option_error MapToStruct_fields_error)

lemma apply_named_params_error_kind:
  "apply_named_params eng all st rest = Inl e \<Longrightarrow>
   ErrorType e = INVALID_INPUT \<or>
   e = InternalException ''MapValue::GetChildren on a value that is not a MAP''"
proof (induction rest arbitrary: st)
  case Nil
  then show ?case by simp
next
  case (Cons p rest)
  then show ?case
    by (auto split: sum.splits dest: apply_named_param_error_kind)
qed

subsection \<open>The loop does not read the scope\<close>

lemma set_secret_map_scope:
  "set_secret_map (s\<lparr>GetScope := x\<rparr>) k v = (set_secret_map s k v)\<lparr>GetScope := x\<rparr>"
  by (simp add: set_secret_map_def)

lemma set_boolean_option_scope:
  "set_boolean_option eng (s\<lparr>GetScope := x\<rparr>) k v =
     (case set_boolean_option eng s k v of
        Inl e \<Rightarrow> Inl e
      | Inr s' \<Rightarrow> Inr (s'\<lparr>GetScope := x\<rparr>))"
  by (cases v) (simp_all add: set_secret_map_scope)

lemma apply_named_param_scope:
  "apply_named_param eng all (s\<lparr>GetScope := x\<rparr>, r) p =
     (case apply_named_param eng all (s, r) p of
        Inl e \<Rightarrow> Inl e
      | Inr st' \<Rightarrow> Inr ((fst st')\<lparr>GetScope := x\<rparr>, snd st'))"
  unfolding apply_named_param_def Let_def
  by (simp add: set_secret_map_scope set_boolean_option_scope split: sum.splits)

lemma apply_named_params_scope:
  "apply_named_params eng all (s\<lparr>GetScope := x\<rparr>, r) rest =
     (case apply_named_params eng all (s, r) rest of
        Inl e \<Rightarrow> Inl e
      | Inr st' \<Rightarrow> Inr ((fst st')\<lparr>GetScope := x\<rparr>, snd st'))"
proof (induction rest arbitrary: s r)
  case Nil
  then show ?case by simp
next
  case (Cons p rest)
  show ?case
  proof (cases "apply_named_param eng all (s, r) p")
    case (Inl e)
    then show ?thesis by (simp add: apply_named_param_scope)
  next
    case (Inr st1)
    with Cons.IH [of "fst st1" "snd st1"] show ?thesis
      by (simp add: apply_named_param_scope)
  qed
qed

lemma initial_secret_scope:
  "initial_secret eng (input\<lparr>scope := sc'\<rparr>) x = (initial_secret eng input y)\<lparr>GetScope := x\<rparr>"
  by (simp add: initial_secret_def Let_def make_KeyValueSecret_def set_secret_map_def
      split: option.splits)

lemma CreateSecretFunctionInternal_error_scope:
  assumes "resolve_scope input = Inr sc" and "sc' \<noteq> []"
  shows "CreateSecretFunctionInternal eng input = Inl e \<longleftrightarrow>
         CreateSecretFunctionInternal eng (input\<lparr>scope := sc'\<rparr>) = Inl e"
proof -
  from assms(2) have r: "resolve_scope (input\<lparr>scope := sc'\<rparr>) = Inr sc'"
    by (simp add: resolve_scope_def)
  have i: "initial_secret eng (input\<lparr>scope := sc'\<rparr>) sc' =
      (initial_secret eng input sc)\<lparr>GetScope := sc'\<rparr>"
    by (rule initial_secret_scope)
  show ?thesis
    by (simp add: CreateSecretFunctionInternal_def assms(1) r i apply_named_params_scope
        split: sum.splits)
qed

section \<open>The claims\<close>

text \<open>
  C1, as the claim states it, fails on the persistence: the input of the refresh has the
  persist type \<open>TEMPORARY\<close> whatever the entry's is. The entry here is persistent.
\<close>

theorem TryRefreshS3Secret_persist_type_counterexample:
  "create_secret_calls (TryRefreshS3Secret (config_manager no_engine) persistent_entry) = [recipe_input] \<and>
   persist_type recipe_input = TEMPORARY \<and>
   SecretEntry.persist_type persistent_entry = PERSISTENT"
  by (simp add: persistent_entry_run) (simp add: recipe_input_def persistent_entry_def)

text \<open>
  C1, amended. When the secret of the entry carries a refresh recipe (a STRUCT under
  \<open>refresh_info\<close>), \<open>TryRefreshS3Secret\<close> passes exactly one input to the secret manager's
  \<open>CreateSecret\<close>. Its type, name, provider and scope are those of the entry's secret, its
  storage type is the storage mode of the entry, its persist type is \<open>TEMPORARY\<close> and
  its conflict policy is \<open>REPLACE_ON_CONFLICT\<close>; its options are the fields of the recipe
  (when these have pairwise different names, as the options of a secret have).
  \<open>GenerateRefreshSecretInfo\<close> does not read the persist type of the entry.
\<close>

theorem TryRefreshS3Secret_refresh_input:
  assumes "TryGetValue (secret secret_to_refresh) ''refresh_info'' = Some (Value_STRUCT children)"
  shows "\<exists>refresh_input.
     create_secret_calls (TryRefreshS3Secret CreateSecret secret_to_refresh) = [refresh_input] \<and>
     type refresh_input = GetType (secret secret_to_refresh) \<and>
     name refresh_input = GetName (secret secret_to_refresh) \<and>
     provider refresh_input = GetProvider (secret secret_to_refresh) \<and>
     scope refresh_input = GetScope (secret secret_to_refresh) \<and>
     storage_type refresh_input = storage_mode secret_to_refresh \<and>
     persist_type refresh_input = TEMPORARY \<and>
     on_conflict refresh_input = REPLACE_ON_CONFLICT \<and>
     (wf_options children \<longrightarrow> set (options refresh_input) = set children)"
proof -
  obtain refresh_input where
    g: "GenerateRefreshSecretInfo secret_to_refresh (Value_STRUCT children) = Inr refresh_input"
    by (simp add: Let_def)
  from TryRefreshS3Secret_calls [OF assms g]
  have "create_secret_calls (TryRefreshS3Secret CreateSecret secret_to_refresh) = [refresh_input]" .
  moreover from g fold_ci_set_wf [of "[]" children]
  have "type refresh_input = GetType (secret secret_to_refresh) \<and>
     name refresh_input = GetName (secret secret_to_refresh) \<and>
     provider refresh_input = GetProvider (secret secret_to_refresh) \<and>
     scope refresh_input = GetScope (secret secret_to_refresh) \<and>
     storage_type refresh_input = storage_mode secret_to_refresh \<and>
     persist_type refresh_input = TEMPORARY \<and>
     on_conflict refresh_input = REPLACE_ON_CONFLICT \<and>
     (wf_options children \<longrightarrow> set (options refresh_input) = set children)"
    by (auto simp add: Let_def)
  ultimately show ?thesis by blast
qed

theorem TryRefreshS3Secret_refresh_input_witness:
  "TryGetValue (secret persistent_entry) ''refresh_info'' =
     Some (Value_STRUCT [(''key_id'', Value_VARCHAR ''k''), (''refresh'', Value_VARCHAR ''auto'')]) \<and>
   (\<exists>refresh_input.
     create_secret_calls (TryRefreshS3Secret (config_manager no_engine) persistent_entry) = [refresh_input] \<and>
     type refresh_input = ''s3'' \<and> name refresh_input = ''s5'' \<and> provider refresh_input = ''config'' \<and>
     scope refresh_input = [''s3://'', ''s3n://'', ''s3a://''] \<and>
     storage_type refresh_input = ''local_file'' \<and>
     persist_type refresh_input = TEMPORARY \<and>
     on_conflict refresh_input = REPLACE_ON_CONFLICT \<and>
     set (options refresh_input) =
       {(''key_id'', Value_VARCHAR ''k''), (''refresh'', Value_VARCHAR ''auto'')})"
proof -
  have t: "TryGetValue (secret persistent_entry) ''refresh_info'' =
     Some (Value_STRUCT [(''key_id'', Value_VARCHAR ''k''), (''refresh'', Value_VARCHAR ''auto'')])"
    by (simp add: TryGetValue_def persistent_entry_def auto_refresh_secret_def)
  have f: "GetType (secret persistent_entry) = ''s3''" "GetName (secret persistent_entry) = ''s5''"
    "GetProvider (secret persistent_entry) = ''config''"
    "GetScope (secret persistent_entry) = [''s3://'', ''s3n://'', ''s3a://'']"
    "storage_mode persistent_entry = ''local_file''"
    by (simp_all add: persistent_entry_def auto_refresh_secret_def)
  have w: "wf_options [(''key_id'', Value_VARCHAR ''k''), (''refresh'', Value_VARCHAR ''auto'')]"
    by (simp add: wf_options_def)
  from TryRefreshS3Secret_refresh_input [OF t, of "config_manager no_engine"] t f w show ?thesis
    by auto
qed

text \<open>
  C2, at a failing input: \<open>refresh\<close> with the value \<open>disabled\<close> iterated before
  \<open>refresh_info\<close>. The flag of the mutual-exclusion check is set from the comparison of
  the value with \<open>auto\<close>, so the check of the \<open>refresh_info\<close> branch passes and a secret
  carrying both \<open>refresh\<close> and the \<open>refresh_info\<close> of the map is returned. The same two
  options iterated in the other order are rejected.
\<close>

theorem CreateSecretFunctionInternal_refresh_disabled_then_refresh_info:
  "CreateSecretFunctionInternal no_engine disabled_refresh_input = Inr disabled_refresh_secret \<and>
   TryGetValue disabled_refresh_secret ''refresh'' = Some (Value_VARCHAR ''auto'') \<and>
   TryGetValue disabled_refresh_secret ''refresh_info'' = Some (Value_STRUCT [(''key_id'', Value_VARCHAR ''k2'')]) \<and>
   CreateSecretFunctionInternal no_engine
     (disabled_refresh_input\<lparr>options := rev (options disabled_refresh_input)\<rparr>) =
     Inl (InvalidInputException refresh_conflict_message)"
proof -
  have "CreateSecretFunctionInternal no_engine
     (disabled_refresh_input\<lparr>options := rev (options disabled_refresh_input)\<rparr>) =
     Inl (InvalidInputException refresh_conflict_message)"
    by (simp add: create_defs disabled_refresh_input_def)
  then show ?thesis
    by (simp add: disabled_refresh_created) (simp add: disabled_refresh_secret_def TryGetValue_def)
qed

text \<open>
  C3. A secret entry whose key-value map has no \<open>refresh_info\<close> key is not refreshed:
  \<open>TryRefreshS3Secret\<close> returns false and has passed nothing to the secret manager's
  \<open>CreateSecret\<close>, whatever that manager is.
\<close>

theorem TryRefreshS3Secret_without_refresh_info:
  assumes "TryGetValue (secret secret_to_refresh) ''refresh_info'' = None"
  shows "TryRefreshS3Secret CreateSecret secret_to_refresh =
           \<lparr>create_secret_calls = [], outcome = Inr False\<rparr>"
  using assms by (simp add: TryRefreshS3Secret_def)

theorem TryRefreshS3Secret_without_refresh_info_witness:
  "TryGetValue s1_secret ''refresh_info'' = None \<and>
   TryRefreshS3Secret (config_manager no_engine)
     \<lparr>SecretEntry.persist_type = TEMPORARY, storage_mode = ''memory'', secret = s1_secret\<rparr> =
   \<lparr>create_secret_calls = [], outcome = Inr False\<rparr>"
proof -
  have h: "TryGetValue (secret \<lparr>SecretEntry.persist_type = TEMPORARY, storage_mode = ''memory'',
             secret = s1_secret\<rparr>) ''refresh_info'' = None"
    by (simp add: TryGetValue_def s1_secret_def)
  from TryRefreshS3Secret_without_refresh_info [OF h] h show ?thesis by simp
qed

text \<open>
  C4, as the claim states it, fails: the loop throws at the first option that fails, so
  an option iterated before the unknown key decides the error. Here \<open>use_ssl\<close> is not a
  BOOLEAN; the message names \<open>use_ssl\<close> and not the unknown key \<open>foo\<close>.
\<close>

theorem CreateSecretFunctionInternal_unknown_parameter_counterexample:
  "(''foo'', Value_VARCHAR ''x'') \<in> set (options bad_type_then_unknown_input) \<and>
   Lower ''foo'' \<notin> recognized_keys \<and>
   CreateSecretFunctionInternal no_engine bad_type_then_unknown_input =
     Inl (InvalidInputException
       (''Invalid type past to secret option: '' @ [CHR 0x27] @ ''use_ssl'' @ [CHR 0x27] @
        '', found '' @ [CHR 0x27] @ ''VARCHAR'' @ [CHR 0x27] @
        '', expected: '' @ [CHR 0x27] @ ''BOOLEAN'' @ [CHR 0x27])) \<and>
   CreateSecretFunctionInternal no_engine bad_type_then_unknown_input \<noteq>
     Inl (InvalidInputException (unknown_parameter_message ''foo''))"
  by (simp add: create_defs bad_type_then_unknown_input_def recognized_keys_def invalid_type_message_def
      unknown_parameter_message_def)

text \<open>
  C4, amended. An input with an option whose lower-cased key is not a recognized one never
  yields a secret. The failure is an invalid-input error when the type is one of s3, r2,
  gcs, aws (or the scope is given) and every \<open>refresh_info\<close> option is a MAP. When the
  options iterated before the unknown one are applied without error, the message is
  \<open>Unknown named parameter passed to CreateSecretFunctionInternal:\<close> followed by the
  lower-cased key. In every case the error is that of the first option, in the order of
  iteration, that fails.
\<close>

theorem CreateSecretFunctionInternal_unknown_parameter:
  assumes "p \<in> set (options input)" and "Lower (fst p) \<notin> recognized_keys"
  shows "(\<exists>e. CreateSecretFunctionInternal eng input = Inl e) \<and>
         ((type input \<in> {''s3'', ''r2'', ''gcs'', ''aws''} \<or> scope input \<noteq> []) \<and>
          (\<forall>q\<in>set (options input). Lower (fst q) = ''refresh_info'' \<longrightarrow> value_type (snd q) = MAP) \<longrightarrow>
            (\<exists>msg. CreateSecretFunctionInternal eng input = Inl (InvalidInputException msg))) \<and>
         (\<forall>before after sc st.
            options input = before @ p # after \<and> resolve_scope input = Inr sc \<and>
            apply_named_params eng (options input) (initial_secret eng input sc, False) before = Inr st \<longrightarrow>
            CreateSecretFunctionInternal eng input =
              Inl (InvalidInputException (unknown_parameter_message (Lower (fst p))))) \<and>
         (\<forall>before q after sc st e.
            options input = before @ q # after \<and> resolve_scope input = Inr sc \<and>
            apply_named_params eng (options input) (initial_secret eng input sc, False) before = Inr st \<and>
            apply_named_param eng (options input) st q = Inl e \<longrightarrow>
            CreateSecretFunctionInternal eng input = Inl e)"
proof (intro conjI allI impI)
  show f: "\<exists>e. CreateSecretFunctionInternal eng input = Inl e"
  proof (cases "CreateSecretFunctionInternal eng input")
    case (Inl e)
    then show ?thesis by blast
  next
    case (Inr s)
    then obtain scope_p st' where
      "apply_named_params eng (options input) (initial_secret eng input scope_p, False) (options input) = Inr st'"
      by (rule CreateSecretFunctionInternal_Inr)
    from apply_named_params_Inr_recognized [OF this] assms show ?thesis by blast
  qed
  {
    assume h: "(type input \<in> {''s3'', ''r2'', ''gcs'', ''aws''} \<or> scope input \<noteq> []) \<and>
          (\<forall>q\<in>set (options input). Lower (fst q) = ''refresh_info'' \<longrightarrow> value_type (snd q) = MAP)"
    from f obtain e where e: "CreateSecretFunctionInternal eng input = Inl e" ..
    from h have "\<exists>sc. resolve_scope input = Inr sc"
      by (intro resolve_scope_Inr) simp
    then obtain sc where sc: "resolve_scope input = Inr sc" ..
    with e have "apply_named_params eng (options input) (initial_secret eng input sc, False) (options input) = Inl e"
      unfolding CreateSecretFunctionInternal_def by (auto split: sum.splits)
    from apply_named_params_error [OF this] h have "ErrorType e = INVALID_INPUT" by blast
    then obtain msg where "e = InvalidInputException msg" by (cases e) auto
    with e show "\<exists>msg. CreateSecretFunctionInternal eng input = Inl (InvalidInputException msg)" by blast
  }
  {
    fix before after sc st
    assume h: "options input = before @ p # after \<and> resolve_scope input = Inr sc \<and>
            apply_named_params eng (options input) (initial_secret eng input sc, False) before = Inr st"
    then have o: "options input = before @ p # after" and sc: "resolve_scope input = Inr sc"
      and b: "apply_named_params eng (options input) (initial_secret eng input sc, False) before = Inr st"
      by blast+
    from apply_named_param_first_error [OF o sc b apply_named_param_unknown [OF assms(2)]]
    show "CreateSecretFunctionInternal eng input =
              Inl (InvalidInputException (unknown_parameter_message (Lower (fst p))))" .
  }
  {
    fix before q after sc st e
    assume h: "options input = before @ q # after \<and> resolve_scope input = Inr sc \<and>
            apply_named_params eng (options input) (initial_secret eng input sc, False) before = Inr st \<and>
            apply_named_param eng (options input) st q = Inl e"
    then have o: "options input = before @ q # after" and sc: "resolve_scope input = Inr sc"
      and b: "apply_named_params eng (options input) (initial_secret eng input sc, False) before = Inr st"
      and q: "apply_named_param eng (options input) st q = Inl e"
      by blast+
    from apply_named_param_first_error [OF o sc b q]
    show "CreateSecretFunctionInternal eng input = Inl e" .
  }
qed

theorem CreateSecretFunctionInternal_unknown_parameter_witness:
  "(''Foo'', Value_VARCHAR ''x'') \<in> set (options unknown_key_input) \<and>
   Lower ''Foo'' \<notin> recognized_keys \<and>
   CreateSecretFunctionInternal no_engine unknown_key_input =
     Inl (InvalidInputException (unknown_parameter_message ''foo'')) \<and>
   (''foo'', Value_VARCHAR ''x'') \<in> set (options bad_type_then_unknown_input) \<and>
   Lower ''foo'' \<notin> recognized_keys \<and>
   CreateSecretFunctionInternal no_engine bad_type_then_unknown_input =
     Inl (InvalidInputException
            (invalid_type_message no_engine ''use_ssl'' (Value_VARCHAR ''yes'')))"
proof -
  have m: "(''Foo'', Value_VARCHAR ''x'') \<in> set (options unknown_key_input)"
    by (simp add: unknown_key_input_def)
  have u: "Lower (fst (''Foo'', Value_VARCHAR ''x'')) \<notin> recognized_keys"
    by (simp add: recognized_keys_def)
  have o: "options unknown_key_input = [(''KEY_ID'', Value_VARCHAR ''k'')] @ (''Foo'', Value_VARCHAR ''x'') # []"
    by (simp add: unknown_key_input_def)
  have r: "resolve_scope unknown_key_input = Inr [''s3://'', ''s3n://'', ''s3a://'']"
    by (simp add: resolve_scope_def unknown_key_input_def)
  have b: "apply_named_params no_engine (options unknown_key_input)
     (initial_secret no_engine unknown_key_input [''s3://'', ''s3n://'', ''s3a://''], False)
     [(''KEY_ID'', Value_VARCHAR ''k'')] =
     Inr (set_secret_map (initial_secret no_engine unknown_key_input [''s3://'', ''s3n://'', ''s3a://''])
            ''key_id'' (Value_VARCHAR ''k''), False)"
    by (simp add: apply_named_param_def Let_def)
  have m2: "(''foo'', Value_VARCHAR ''x'') \<in> set (options bad_type_then_unknown_input)"
    by (simp add: bad_type_then_unknown_input_def)
  have u2: "Lower (fst (''foo'', Value_VARCHAR ''x'')) \<notin> recognized_keys"
    by (simp add: recognized_keys_def)
  have o2: "options bad_type_then_unknown_input =
      [] @ (''use_ssl'', Value_VARCHAR ''yes'') # [(''foo'', Value_VARCHAR ''x'')]"
    by (simp add: bad_type_then_unknown_input_def)
  have r2: "resolve_scope bad_type_then_unknown_input = Inr [''s3://'', ''s3n://'', ''s3a://'']"
    by (simp add: resolve_scope_def bad_type_then_unknown_input_def)
  have b2: "apply_named_params no_engine (options bad_type_then_unknown_input)
     (initial_secret no_engine bad_type_then_unknown_input [''s3://'', ''s3n://'', ''s3a://''], False) [] =
     Inr (initial_secret no_engine bad_type_then_unknown_input [''s3://'', ''s3n://'', ''s3a://''], False)"
    by simp
  have q2: "apply_named_param no_engine (options bad_type_then_unknown_input)
     (initial_secret no_engine bad_type_then_unknown_input [''s3://'', ''s3n://'', ''s3a://''], False)
     (''use_ssl'', Value_VARCHAR ''yes'') =
     Inl (InvalidInputException (invalid_type_message no_engine ''use_ssl'' (Value_VARCHAR ''yes'')))"
    by (simp add: apply_named_param_def Let_def)
  from CreateSecretFunctionInternal_unknown_parameter [OF m u, of no_engine, THEN conjunct2, THEN conjunct2, THEN conjunct1, rule_format,
      OF conjI [OF o conjI [OF r b]]]
    CreateSecretFunctionInternal_unknown_parameter [OF m2 u2, of no_engine, THEN conjunct2, THEN conjunct2, THEN conjunct2, rule_format,
      OF conjI [OF o2 conjI [OF r2 conjI [OF b2 q2]]]]
    m u m2 u2
  show ?thesis by simp
qed

text \<open>
  C5. When the input's scope is empty, the secret that \<open>CreateSecretFunctionInternal\<close>
  returns has the default scope of its type: \<open>s3://\<close>, \<open>s3n://\<close>, \<open>s3a://\<close> for s3,
  \<open>r2://\<close> for r2, \<open>gcs://\<close>, \<open>gs://\<close> for gcs and the empty prefix for aws. When the
  input's scope is not empty, the secret has that scope unchanged. For these four types, and
  for any type with a scope of the user's, the scope never makes the creation fail: an input
  without options yields a secret, no failure is the unknown-secret-type error, and the
  input fails exactly when it fails with a scope of the user's in place of its own, with the
  same error.
\<close>

theorem CreateSecretFunctionInternal_scope:
  "(\<forall>s. CreateSecretFunctionInternal eng input = Inr s \<longrightarrow>
      (scope input = [] \<and> type input = ''s3'' \<longrightarrow>
         GetScope s = [''s3://'', ''s3n://'', ''s3a://'']) \<and>
      (scope input = [] \<and> type input = ''r2'' \<longrightarrow> GetScope s = [''r2://'']) \<and>
      (scope input = [] \<and> type input = ''gcs'' \<longrightarrow> GetScope s = [''gcs://'', ''gs://'']) \<and>
      (scope input = [] \<and> type input = ''aws'' \<longrightarrow> GetScope s = ['''']) \<and>
      (scope input \<noteq> [] \<longrightarrow> GetScope s = scope input)) \<and>
   ((type input \<in> {''s3'', ''r2'', ''gcs'', ''aws''} \<or> scope input \<noteq> []) \<longrightarrow>
      (options input = [] \<longrightarrow> (\<exists>s. CreateSecretFunctionInternal eng input = Inr s)) \<and>
      CreateSecretFunctionInternal eng input \<noteq>
        Inl (InternalException (''Unknown secret type found in httpfs extension: '' @
               [CHR 0x27] @ type input @ [CHR 0x27])) \<and>
      (\<forall>sc' e. sc' \<noteq> [] \<longrightarrow>
         (CreateSecretFunctionInternal eng input = Inl e \<longleftrightarrow>
          CreateSecretFunctionInternal eng (input\<lparr>scope := sc'\<rparr>) = Inl e)))"
proof (intro conjI allI impI)
  fix s assume a: "CreateSecretFunctionInternal eng input = Inr s"
  from CreateSecretFunctionInternal_header [OF a]
  have r: "resolve_scope input = Inr (GetScope s)" by simp
  { assume "scope input = [] \<and> type input = ''s3''"
    with r show "GetScope s = [''s3://'', ''s3n://'', ''s3a://'']" by (simp add: resolve_scope_def) }
  { assume "scope input = [] \<and> type input = ''r2''"
    with r show "GetScope s = [''r2://'']" by (simp add: resolve_scope_def) }
  { assume "scope input = [] \<and> type input = ''gcs''"
    with r show "GetScope s = [''gcs://'', ''gs://'']" by (simp add: resolve_scope_def) }
  { assume "scope input = [] \<and> type input = ''aws''"
    with r show "GetScope s = ['''']" by (simp add: resolve_scope_def) }
  { assume "scope input \<noteq> []"
    with r show "GetScope s = scope input" by (simp add: resolve_scope_def) }
next
  assume k: "type input \<in> {''s3'', ''r2'', ''gcs'', ''aws''} \<or> scope input \<noteq> []"
  then obtain sc where sc: "resolve_scope input = Inr sc"
    using resolve_scope_Inr by blast
  { assume "options input = []"
    with sc show "\<exists>s. CreateSecretFunctionInternal eng input = Inr s"
      by (simp add: CreateSecretFunctionInternal_def) }
  show "CreateSecretFunctionInternal eng input \<noteq>
        Inl (InternalException (''Unknown secret type found in httpfs extension: '' @
               [CHR 0x27] @ type input @ [CHR 0x27]))"
  proof
    assume "CreateSecretFunctionInternal eng input =
        Inl (InternalException (''Unknown secret type found in httpfs extension: '' @
               [CHR 0x27] @ type input @ [CHR 0x27]))"
    with sc have "apply_named_params eng (options input) (initial_secret eng input sc, False) (options input) =
        Inl (InternalException (''Unknown secret type found in httpfs extension: '' @
               [CHR 0x27] @ type input @ [CHR 0x27]))"
      unfolding CreateSecretFunctionInternal_def by (auto split: sum.splits)
    from apply_named_params_error_kind [OF this] show False by simp
  qed
  {
    fix sc' :: "string list" and e
    assume "sc' \<noteq> []"
    from CreateSecretFunctionInternal_error_scope [OF sc this]
    show "CreateSecretFunctionInternal eng input = Inl e \<longleftrightarrow>
          CreateSecretFunctionInternal eng (input\<lparr>scope := sc'\<rparr>) = Inl e" .
  }
qed

theorem CreateSecretFunctionInternal_scope_witness:
  "(\<exists>s. CreateSecretFunctionInternal no_engine (bare_input ''s3'') = Inr s \<and>
        GetScope s = [''s3://'', ''s3n://'', ''s3a://'']) \<and>
   (\<exists>s. CreateSecretFunctionInternal no_engine (bare_input ''r2'') = Inr s \<and>
        GetScope s = [''r2://'']) \<and>
   (\<exists>s. CreateSecretFunctionInternal no_engine (bare_input ''gcs'') = Inr s \<and>
        GetScope s = [''gcs://'', ''gs://'']) \<and>
   (\<exists>s. CreateSecretFunctionInternal no_engine (bare_input ''aws'') = Inr s \<and>
        GetScope s = ['''']) \<and>
   CreateSecretFunctionInternal no_engine scoped_input = Inr scoped_secret \<and>
   scope scoped_input \<noteq> [] \<and> GetScope scoped_secret = scope scoped_input"
proof -
  have b: "scope (bare_input t) = []" "type (bare_input t) = t" "options (bare_input t) = []" for t
    by (simp_all add: bare_input_def)
  have s3: "\<exists>s. CreateSecretFunctionInternal no_engine (bare_input ''s3'') = Inr s \<and>
        GetScope s = [''s3://'', ''s3n://'', ''s3a://'']"
  proof -
    from CreateSecretFunctionInternal_scope [of no_engine "bare_input ''s3''", THEN conjunct2]
    have "\<exists>s. CreateSecretFunctionInternal no_engine (bare_input ''s3'') = Inr s"
      by (simp add: b)
    then obtain s
      where s: "CreateSecretFunctionInternal no_engine (bare_input ''s3'') = Inr s" ..
    from CreateSecretFunctionInternal_scope [of no_engine "bare_input ''s3''", THEN conjunct1, rule_format, OF s]
    have "GetScope s = [''s3://'', ''s3n://'', ''s3a://'']" by (simp add: b)
    with s show ?thesis by blast
  qed
  have r2: "\<exists>s. CreateSecretFunctionInternal no_engine (bare_input ''r2'') = Inr s \<and>
        GetScope s = [''r2://'']"
  proof -
    from CreateSecretFunctionInternal_scope [of no_engine "bare_input ''r2''", THEN conjunct2]
    have "\<exists>s. CreateSecretFunctionInternal no_engine (bare_input ''r2'') = Inr s"
      by (simp add: b)
    then obtain s
      where s: "CreateSecretFunctionInternal no_engine (bare_input ''r2'') = Inr s" ..
    from CreateSecretFunctionInternal_scope [of no_engine "bare_input ''r2''", THEN conjunct1, rule_format, OF s]
    have "GetScope s = [''r2://'']" by (simp add: b)
    with s show ?thesis by blast
  qed
  have gcs: "\<exists>s. CreateSecretFunctionInternal no_engine (bare_input ''gcs'') = Inr s \<and>
        GetScope s = [''gcs://'', ''gs://'']"
  proof -
    from CreateSecretFunctionInternal_scope [of no_engine "bare_input ''gcs''", THEN conjunct2]
    have "\<exists>s. CreateSecretFunctionInternal no_engine (bare_input ''gcs'') = Inr s"
      by (simp add: b)
    then obtain s
      where s: "CreateSecretFunctionInternal no_engine (bare_input ''gcs'') = Inr s" ..
    from CreateSecretFunctionInternal_scope [of no_engine "bare_input ''gcs''", THEN conjunct1, rule_format, OF s]
    have "GetScope s = [''gcs://'', ''gs://'']" by (simp add: b)
    with s show ?thesis by blast
  qed
  have aws: "\<exists>s. CreateSecretFunctionInternal no_engine (bare_input ''aws'') = Inr s \<and>
        GetScope s = ['''']"
  proof -
    from CreateSecretFunctionInternal_scope [of no_engine "bare_input ''aws''", THEN conjunct2]
    have "\<exists>s. CreateSecretFunctionInternal no_engine (bare_input ''aws'') = Inr s"
      by (simp add: b)
    then obtain s
      where s: "CreateSecretFunctionInternal no_engine (bare_input ''aws'') = Inr s" ..
    from CreateSecretFunctionInternal_scope [of no_engine "bare_input ''aws''", THEN conjunct1, rule_format, OF s]
    have "GetScope s = ['''']" by (simp add: b)
    with s show ?thesis by blast
  qed
  from CreateSecretFunctionInternal_scope [of no_engine scoped_input, THEN conjunct1, rule_format,
      OF scoped_created [of no_engine]]
  have u: "scope scoped_input \<noteq> [] \<and> GetScope scoped_secret = scope scoped_input"
    by (simp add: scoped_input_def)
  from s3 r2 gcs aws u scoped_created [of no_engine] show ?thesis by blast
qed

text \<open>
  C6. Every secret that \<open>CreateSecretFunctionInternal\<close> returns has the redact keys
  \<open>secret\<close> and \<open>session_token\<close> and no other, whatever options were given.
\<close>

theorem CreateSecretFunctionInternal_redact_keys:
  "CreateSecretFunctionInternal eng input = Inr s \<Longrightarrow>
   redact_keys s = {''secret'', ''session_token''}"
  by (simp add: CreateSecretFunctionInternal_header)

theorem CreateSecretFunctionInternal_redact_keys_witness:
  "CreateSecretFunctionInternal no_engine s1_input = Inr s1_secret \<and>
   redact_keys s1_secret = {''secret'', ''session_token''}"
  using CreateSecretFunctionInternal_redact_keys [of no_engine s1_input s1_secret]
    s1_created [of no_engine]
  by simp

text \<open>
  C7, as the claim states it, fails: the constructor of \<open>S3FileHandle\<close> tests only for
  read together with write and for append, so flags that ask for neither reading nor
  writing (and not for appending) construct a handle, in a mode that is neither read-only
  nor write-only.
\<close>

theorem S3FileHandle_new_no_access_counterexample:
  "S3FileHandle_new no_access_flags default_auth_params default_config_params =
     Inr \<lparr>flags = no_access_flags, auth_params = default_auth_params,
          config_params = default_config_params, uploads_in_progress = 0, parts_uploaded = 0,
          upload_finalized = False, uploader_has_error = False, upload_exception = None\<rparr> \<and>
   \<not> read_only no_access_flags \<and> \<not> write_only no_access_flags"
  by (simp add: S3FileHandle_new_def no_access_flags_def read_only_def write_only_def)

text \<open>
  C7, amended. For every combination of open flags: with both the read and the write
  flag set, or with the append flag set, the construction fails with a not-implemented
  error; with every other combination it succeeds, the handle keeps the flags and starts
  with no upload in progress, no part uploaded, the upload not finalized and no uploader
  error. Among the flags that ask for reading or writing at all, the construction
  succeeds only for the read-only and the write-only mode, without append.
\<close>

theorem S3FileHandle_new_open_modes:
  "((OpenForReading f \<and> OpenForWriting f) \<or> OpenForAppending f \<longrightarrow>
      (\<exists>msg. S3FileHandle_new f a c = Inl (NotImplementedException msg))) \<and>
   (\<not> (OpenForReading f \<and> OpenForWriting f) \<and> \<not> OpenForAppending f \<longrightarrow>
      (\<exists>h. S3FileHandle_new f a c = Inr h \<and> flags h = f \<and> uploads_in_progress h = 0 \<and>
           parts_uploaded h = 0 \<and> \<not> upload_finalized h \<and> \<not> uploader_has_error h)) \<and>
   ((\<exists>h. S3FileHandle_new f a c = Inr h) \<and> (OpenForReading f \<or> OpenForWriting f) \<longrightarrow>
      (read_only f \<or> write_only f) \<and> \<not> OpenForAppending f)"
  by (auto simp add: S3FileHandle_new_def read_only_def write_only_def)

theorem S3FileHandle_new_open_modes_witness:
  "OpenForReading read_write_flags \<and> OpenForWriting read_write_flags \<and>
   (\<exists>msg. S3FileHandle_new read_write_flags default_auth_params default_config_params =
      Inl (NotImplementedException msg)) \<and>
   \<not> OpenForReading write_flags \<and> OpenForWriting write_flags \<and>
   \<not> OpenForAppending write_flags \<and>
   (\<exists>h. S3FileHandle_new write_flags default_auth_params default_config_params = Inr h \<and>
        flags h = write_flags) \<and>
   write_only write_flags"
  using S3FileHandle_new_open_modes [of read_write_flags default_auth_params default_config_params]
    S3FileHandle_new_open_modes [of write_flags default_auth_params default_config_params]
  by (auto simp add: read_write_flags_def write_flags_def write_only_def)

text \<open>
  C8. For every start offset and every buffer size other than 0, the constructor of
  \<open>S3WriteBuffer\<close> gives a buffer whose part number is the offset divided by the size
  (the integer quotient of the two unsigned numbers), whose \<open>buffer_end\<close> is the offset
  plus the size (in 64-bit arithmetic; the sum of the two numbers when that fits), whose
  write cursor \<open>idx\<close> is 0 and which is not uploading. The part number given to the
  provider is the internal part number plus one.
\<close>

theorem S3WriteBuffer_new_fields:
  assumes "buffer_size \<noteq> 0"
  shows "\<exists>wb. S3WriteBuffer_new buffer_start_p buffer_size buffer_p = Some wb \<and>
     part_no wb = buffer_start_p div buffer_size \<and>
     unat (part_no wb) = unat buffer_start_p div unat buffer_size \<and>
     buffer_start wb = buffer_start_p \<and>
     buffer_end wb = buffer_start_p + buffer_size \<and>
     (unat buffer_start_p + unat buffer_size < 2 ^ 64 \<longrightarrow>
        unat (buffer_end wb) = unat buffer_start_p + unat buffer_size) \<and>
     idx wb = 0 \<and> \<not> uploading wb \<and>
     provider_part_number wb = buffer_start_p div buffer_size + 1"
  using assms
  by (simp add: S3WriteBuffer_new_def provider_part_number_def unat_div unat_word_ariths)

theorem S3WriteBuffer_new_fields_witness:
  "(5242880 :: 64 word) \<noteq> 0 \<and>
   (\<exists>wb. S3WriteBuffer_new 10485760 5242880 () = Some wb \<and> part_no wb = 2 \<and>
      buffer_end wb = 15728640 \<and> idx wb = 0 \<and> \<not> uploading wb \<and>
      provider_part_number wb = 3)"
proof -
  have h: "(5242880 :: 64 word) \<noteq> 0" by simp
  from S3WriteBuffer_new_fields [OF h, of 10485760 "()"] h show ?thesis by auto
qed

text \<open>
  C9, at a failing input, the one of C2: \<open>refresh\<close> with the value \<open>disabled\<close> iterated
  before \<open>refresh_info\<close>. The flag is set by the value \<open>auto\<close> only, so the \<open>refresh_info\<close>
  branch runs and replaces the struct of the options by the struct of the user's map: the
  secret does not record every supplied option. Without a \<open>refresh_info\<close> option the same
  value \<open>disabled\<close> gives what the claim says: \<open>refresh = auto\<close> and the struct of all the
  options under lower-cased keys.
\<close>

theorem CreateSecretFunctionInternal_refresh_info_overwritten:
  "CreateSecretFunctionInternal no_engine disabled_refresh_input = Inr disabled_refresh_secret \<and>
   (''refresh'', Value_VARCHAR ''disabled'') \<in> set (options disabled_refresh_input) \<and>
   TryGetValue disabled_refresh_secret ''refresh'' = Some (Value_VARCHAR ''auto'') \<and>
   TryGetValue disabled_refresh_secret ''refresh_info'' =
     Some (Value_STRUCT [(''key_id'', Value_VARCHAR ''k2'')]) \<and>
   TryGetValue disabled_refresh_secret ''refresh_info'' \<noteq>
     Some (Value_STRUCT (lower_keys (options disabled_refresh_input))) \<and>
   CreateSecretFunctionInternal no_engine disabled_only_input = Inr disabled_only_secret \<and>
   TryGetValue disabled_only_secret ''refresh'' = Some (Value_VARCHAR ''auto'') \<and>
   TryGetValue disabled_only_secret ''refresh_info'' =
     Some (Value_STRUCT (lower_keys (options disabled_only_input)))"
  by (simp add: disabled_refresh_created disabled_only_created)
     (simp add: disabled_refresh_secret_def disabled_refresh_input_def disabled_only_secret_def
        disabled_only_input_def TryGetValue_def lower_keys_def)

text \<open>
  C10. Option keys are matched without regard to case: two option maps that agree after
  lower-casing the keys give the same result (so \<open>KEY_ID\<close> and \<open>key_id\<close> select the same
  option). The keys that the map of a created secret is stored with are recognized option
  names, all in lower case, whatever the spelling of the option keys; the value of a
  \<open>key_id\<close> or \<open>secret\<close> option, in whatever case its key is written, is stored under the
  lower-cased key. The key that an unknown-parameter error reports is the lower-cased form of
  an option key of the input.
\<close>

theorem CreateSecretFunctionInternal_case_insensitive:
  "(lower_keys opts' = lower_keys (options input) \<longrightarrow>
      CreateSecretFunctionInternal eng (input\<lparr>options := opts'\<rparr>) =
      CreateSecretFunctionInternal eng input) \<and>
   (\<forall>s. CreateSecretFunctionInternal eng input = Inr s \<longrightarrow>
      fst ` set (secret_map s) \<subseteq> recognized_keys \<and>
      (\<forall>k\<in>fst ` set (secret_map s). Lower k = k)) \<and>
   (\<forall>s p. CreateSecretFunctionInternal eng input = Inr s \<and> wf_options (options input) \<and>
      p \<in> set (options input) \<and> Lower (fst p) \<in> {''key_id'', ''secret''} \<longrightarrow>
      (Lower (fst p), snd p) \<in> set (secret_map s)) \<and>
   (\<forall>k'. CreateSecretFunctionInternal eng input =
           Inl (InvalidInputException (unknown_parameter_message k')) \<longrightarrow>
      (\<exists>p\<in>set (options input). k' = Lower (fst p) \<and> k' \<notin> recognized_keys))"
proof (intro conjI allI impI)
  assume "lower_keys opts' = lower_keys (options input)"
  then show "CreateSecretFunctionInternal eng (input\<lparr>options := opts'\<rparr>) =
      CreateSecretFunctionInternal eng input"
    by (rule CreateSecretFunctionInternal_lower)
next
  fix s assume a: "CreateSecretFunctionInternal eng input = Inr s"
  then obtain scope_p st' where
    l: "apply_named_params eng (options input) (initial_secret eng input scope_p, False) (options input) = Inr st'"
    and s: "s = fst st'"
    by (rule CreateSecretFunctionInternal_Inr)
  from apply_named_params_keys [OF l, of "{}"] initial_secret_keys [of eng input scope_p]
  show d: "fst ` set (secret_map s) \<subseteq> recognized_keys"
    by (simp add: s keys_within_def)
  show "\<forall>k\<in>fst ` set (secret_map s). Lower k = k"
    using d recognized_keys_lower by blast
next
  fix s p
  assume "CreateSecretFunctionInternal eng input = Inr s \<and> wf_options (options input) \<and>
      p \<in> set (options input) \<and> Lower (fst p) \<in> {''key_id'', ''secret''}"
  then show "(Lower (fst p), snd p) \<in> set (secret_map s)"
    by (intro CreateSecretFunctionInternal_stores) blast+
next
  fix k' assume a: "CreateSecretFunctionInternal eng input =
           Inl (InvalidInputException (unknown_parameter_message k'))"
  have "resolve_scope input \<noteq> Inl (InvalidInputException (unknown_parameter_message k'))"
    by (simp add: resolve_scope_def)
  with a obtain sc where "apply_named_params eng (options input) (initial_secret eng input sc, False) (options input)
     = Inl (InvalidInputException (unknown_parameter_message k'))"
    unfolding CreateSecretFunctionInternal_def by (auto split: sum.splits)
  then show "\<exists>p\<in>set (options input). k' = Lower (fst p) \<and> k' \<notin> recognized_keys"
    by (rule apply_named_params_unknown_message)
qed

theorem CreateSecretFunctionInternal_case_insensitive_witness:
  "lower_keys [(''key_id'', Value_VARCHAR ''k''), (''secret'', Value_VARCHAR ''s''),
               (''requester_pays'', Value_BOOLEAN True)] = lower_keys (options s1_input) \<and>
   CreateSecretFunctionInternal no_engine
     (s1_input\<lparr>options := [(''key_id'', Value_VARCHAR ''k''), (''secret'', Value_VARCHAR ''s''),
               (''requester_pays'', Value_BOOLEAN True)]\<rparr>) = CreateSecretFunctionInternal no_engine s1_input \<and>
   CreateSecretFunctionInternal no_engine s1_input = Inr s1_secret \<and>
   fst ` set (secret_map s1_secret) \<subseteq> recognized_keys \<and>
   wf_options (options s1_input) \<and>
   (''KEY_ID'', Value_VARCHAR ''k'') \<in> set (options s1_input) \<and>
   (''key_id'', Value_VARCHAR ''k'') \<in> set (secret_map s1_secret) \<and>
   CreateSecretFunctionInternal no_engine unknown_key_input =
     Inl (InvalidInputException (unknown_parameter_message ''foo'')) \<and>
   (\<exists>p\<in>set (options unknown_key_input). ''foo'' = Lower (fst p))"
proof -
  have l: "lower_keys [(''key_id'', Value_VARCHAR ''k''), (''secret'', Value_VARCHAR ''s''),
               (''requester_pays'', Value_BOOLEAN True)] = lower_keys (options s1_input)"
    by (simp add: lower_keys_def s1_input_def)
  have w: "wf_options (options s1_input)"
    by (simp add: wf_options_def s1_input_def)
  have m: "(''KEY_ID'', Value_VARCHAR ''k'') \<in> set (options s1_input)"
    by (simp add: s1_input_def)
  have k: "Lower (fst (''KEY_ID'', Value_VARCHAR ''k'')) \<in> {''key_id'', ''secret''}" by simp
  have u: "CreateSecretFunctionInternal no_engine unknown_key_input =
     Inl (InvalidInputException (unknown_parameter_message ''foo''))"
    by (simp add: create_defs unknown_key_input_def)
  note t = CreateSecretFunctionInternal_case_insensitive [of "[(''key_id'', Value_VARCHAR ''k''), (''secret'', Value_VARCHAR ''s''),
               (''requester_pays'', Value_BOOLEAN True)]" s1_input no_engine]
  from t l have a: "CreateSecretFunctionInternal no_engine
     (s1_input\<lparr>options := [(''key_id'', Value_VARCHAR ''k''), (''secret'', Value_VARCHAR ''s''),
               (''requester_pays'', Value_BOOLEAN True)]\<rparr>) = CreateSecretFunctionInternal no_engine s1_input"
    by blast
  from t s1_created [of no_engine] have b: "fst ` set (secret_map s1_secret) \<subseteq> recognized_keys"
    by blast
  from t [THEN conjunct2, THEN conjunct2, THEN conjunct1, rule_format,
      OF conjI [OF s1_created [of no_engine] conjI [OF w conjI [OF m k]]]]
  have c: "(''key_id'', Value_VARCHAR ''k'') \<in> set (secret_map s1_secret)" by simp
  from CreateSecretFunctionInternal_case_insensitive [of "[]" unknown_key_input no_engine, THEN conjunct2, THEN conjunct2, THEN conjunct2,
      rule_format, OF u]
  have d: "\<exists>p\<in>set (options unknown_key_input). ''foo'' = Lower (fst p)" by blast
  from l a s1_created [of no_engine] b w m c u d show ?thesis by blast
qed

end
